theory Spec2Isabelle
  imports Complex_Main "HOL-Library.Word"
begin

unbundle bit_operations_syntax

section \<open>Basic types (stdtypes.h)\<close>

text \<open>
  \<^verbatim>\<open>typedef unsigned char BYTE; typedef unsigned short WORD; typedef UINT32 DWORD;\<close>
  \<^verbatim>\<open>typedef int BOOL;\<close> with \<^verbatim>\<open>fFalse = 0\<close> and \<^verbatim>\<open>fTrue = (!fFalse)\<close>; a
  \<^verbatim>\<open>BOOL\<close> that only ever holds one of these two values is modelled as \<open>bool\<close>.
\<close>

type_synonym BYTE = "8 word"
type_synonym WORD = "16 word"
type_synonym DWORD = "32 word"

section \<open>Zmod identification (Zmod.h, Zmod.c, ZmodADC.[ch], ZmodDAC.h, ZmodDigitizer.[ch])\<close>

datatype ZMOD_FAMILY =
    ZMOD_FAMILY_ADC
  | ZMOD_FAMILY_DAC
  | ZMOD_FAMILY_DIGITIZER
  | ZMOD_FAMILY_UNSUPPORTED

datatype ZMOD_ADC_VARIANT =
    ZMOD_ADC_VARIANT_1410_105
  | ZMOD_ADC_VARIANT_1010_40
  | ZMOD_ADC_VARIANT_1210_40
  | ZMOD_ADC_VARIANT_1410_40
  | ZMOD_ADC_VARIANT_1010_125
  | ZMOD_ADC_VARIANT_1210_125
  | ZMOD_ADC_VARIANT_1410_125
  | ZMOD_ADC_VARIANT_UNSUPPORTED

text \<open>\<^verbatim>\<open>#define prodZmodADC 0x801\<close> (ZmodADC.h), \<^verbatim>\<open>#define prodZmodDAC 0x802\<close> (ZmodDAC.h),
  \<^verbatim>\<open>#define prodZmodDigitizer 0x801\<close> (ZmodDigitizer.h).\<close>

definition prodZmodADC :: DWORD where
  "prodZmodADC = 0x801"

definition prodZmodDAC :: DWORD where
  "prodZmodDAC = 0x802"

definition prodZmodDigitizer :: DWORD where
  "prodZmodDigitizer = 0x801"

text \<open>\<^verbatim>\<open>return ((Pdid >> 20) & 0xfff) == prodZmodADC;\<close>\<close>

definition FZmodIsADC :: "DWORD \<Rightarrow> bool" where
  "FZmodIsADC Pdid \<longleftrightarrow> (drop_bit 20 Pdid AND 0xfff) = prodZmodADC"

text \<open>\<^verbatim>\<open>return ((Pdid >> 20) & 0xfff) == prodZmodDigitizer;\<close>\<close>

definition FZmodIsDigitizer :: "DWORD \<Rightarrow> bool" where
  "FZmodIsDigitizer Pdid \<longleftrightarrow> (drop_bit 20 Pdid AND 0xfff) = prodZmodDigitizer"

text \<open>
  \<^verbatim>\<open>FGetZmodADCVariant(DWORD Pdid, ZMOD_ADC_VARIANT *pVariant)\<close>: a switch on
  \<^verbatim>\<open>(Pdid >> 8) & 0xfff\<close>. Every branch stores through \<^verbatim>\<open>pVariant\<close>, so the model
  returns the pair (return value, value stored).
\<close>

definition FGetZmodADCVariant :: "DWORD \<Rightarrow> bool \<times> ZMOD_ADC_VARIANT" where
  "FGetZmodADCVariant Pdid =
     (let sel = drop_bit 8 Pdid AND 0xfff in
      if sel = 0x002 then (True, ZMOD_ADC_VARIANT_1410_105)
      else if sel = 0x012 then (True, ZMOD_ADC_VARIANT_1010_40)
      else if sel = 0x022 then (True, ZMOD_ADC_VARIANT_1210_40)
      else if sel = 0x032 then (True, ZMOD_ADC_VARIANT_1410_40)
      else if sel = 0x042 then (True, ZMOD_ADC_VARIANT_1010_125)
      else if sel = 0x052 then (True, ZMOD_ADC_VARIANT_1210_125)
      else if sel = 0x062 then (True, ZMOD_ADC_VARIANT_1410_125)
      else (False, ZMOD_ADC_VARIANT_UNSUPPORTED))"

text \<open>
  \<^verbatim>\<open>FGetZmodADCResolution(ZMOD_ADC_VARIANT variant, DWORD *pResolution)\<close>: the
  unsupported variant returns \<^verbatim>\<open>fFalse\<close> without storing, so the model takes the
  previous content of \<^verbatim>\<open>*pResolution\<close> and returns it unchanged in that case.
\<close>

fun FGetZmodADCResolution :: "ZMOD_ADC_VARIANT \<Rightarrow> DWORD \<Rightarrow> bool \<times> DWORD" where
  "FGetZmodADCResolution ZMOD_ADC_VARIANT_1410_105 res = (True, 14)"
| "FGetZmodADCResolution ZMOD_ADC_VARIANT_1410_40 res = (True, 14)"
| "FGetZmodADCResolution ZMOD_ADC_VARIANT_1410_125 res = (True, 14)"
| "FGetZmodADCResolution ZMOD_ADC_VARIANT_1210_40 res = (True, 12)"
| "FGetZmodADCResolution ZMOD_ADC_VARIANT_1210_125 res = (True, 12)"
| "FGetZmodADCResolution ZMOD_ADC_VARIANT_1010_40 res = (True, 10)"
| "FGetZmodADCResolution ZMOD_ADC_VARIANT_1010_125 res = (True, 10)"
| "FGetZmodADCResolution ZMOD_ADC_VARIANT_UNSUPPORTED res = (False, res)"

text \<open>
  \<^verbatim>\<open>FGetZmodFamily(DWORD Pdid, ZMOD_FAMILY *pFamily)\<close> tests ADC, then DAC, then
  Digitizer. The body of \<^verbatim>\<open>FZmodIsDAC\<close> is not part of the sources at hand (only the
  call is), so the predicate is a parameter of the model.
\<close>

definition FGetZmodFamily :: "(DWORD \<Rightarrow> bool) \<Rightarrow> DWORD \<Rightarrow> bool \<times> ZMOD_FAMILY" where
  "FGetZmodFamily FZmodIsDAC Pdid =
     (if FZmodIsADC Pdid then (True, ZMOD_FAMILY_ADC)
      else if FZmodIsDAC Pdid then (True, ZMOD_FAMILY_DAC)
      else if FZmodIsDigitizer Pdid then (True, ZMOD_FAMILY_DIGITIZER)
      else (True, ZMOD_FAMILY_UNSUPPORTED))"

section \<open>Digitizer frequency steps (ZmodDigitizer.c)\<close>

text \<open>
  \<^verbatim>\<open>float FZmodDigitizerGetFrequencyStepMHz(BYTE hz)\<close>: a switch returning a \<^verbatim>\<open>float\<close>
  literal. The value returned is a single-precision (binary32) number, and the model
  returns that number as a real. The literals \<^verbatim>\<open>50.0f\<close>, \<^verbatim>\<open>80.0f\<close>, \<^verbatim>\<open>100.0f\<close>,
  \<^verbatim>\<open>110.0f\<close>, \<^verbatim>\<open>120.0f\<close>, \<^verbatim>\<open>125.0f\<close> and \<^verbatim>\<open>0.0f\<close> are integers below \<open>2 ^ 24\<close> and
  are binary32 numbers themselves. \<^verbatim>\<open>122.88f\<close> is not: between 64 and 128 the binary32
  numbers are the multiples of \<open>1 / 2 ^ 17\<close>, and \<open>122.88 * 2 ^ 17 = 16106127.36\<close>, so the
  literal denotes the nearest of them, \<open>16106127 / 2 ^ 17\<close> (lemma
  \<open>literal_122_88f\<close> below).
\<close>

definition FZmodDigitizerGetFrequencyStepMHz :: "BYTE \<Rightarrow> real" where
  "FZmodDigitizerGetFrequencyStepMHz hz =
     (if hz = 0 then 16106127 / 2 ^ 17
      else if hz = 50 then 50
      else if hz = 80 then 80
      else if hz = 100 then 100
      else if hz = 110 then 110
      else if hz = 120 then 120
      else if hz = 125 then 125
      else 0)"

section \<open>SYZYGY DNA header CRC (syzygy.c)\<close>

text \<open>
  The body of the loop of \<^verbatim>\<open>SyzygyComputeCRC\<close>, for one byte \<^verbatim>\<open>*pbBuf\<close>:
  \<^verbatim>\<open>x = (crc >> 8) ^ *pbBuf; x ^= (x >> 4);\<close>
  \<^verbatim>\<open>crc = (crc << 8) ^ (x << 12) ^ (x << 5) ^ (x); crc &= 0xFFFF;\<close>
  \<^verbatim>\<open>x\<close> and \<^verbatim>\<open>crc\<close> are \<^verbatim>\<open>WORD\<close>s: the right-hand sides are computed in \<^verbatim>\<open>int\<close> and
  truncated to 16 bits by the assignment, which is what the operations on \<open>16 word\<close> do.
\<close>

definition SyzygyComputeCRC_step :: "WORD \<Rightarrow> BYTE \<Rightarrow> WORD" where
  "SyzygyComputeCRC_step crc b =
     (let x = drop_bit 8 crc XOR ucast b;
          x = x XOR drop_bit 4 x;
          crc = push_bit 8 crc XOR push_bit 12 x XOR push_bit 5 x XOR x
      in crc AND 0xFFFF)"

text \<open>
  \<^verbatim>\<open>while ( 0 < cbBuf ) { ...; pbBuf++; cbBuf--; }\<close>: the counter is the number of bytes
  still to read; reading past the end of the buffer the caller passed is not defined in C
  and is \<open>None\<close> here.
\<close>

fun SyzygyComputeCRC_loop :: "WORD \<Rightarrow> BYTE list \<Rightarrow> nat \<Rightarrow> WORD option" where
  "SyzygyComputeCRC_loop crc pbBuf 0 = Some crc"
| "SyzygyComputeCRC_loop crc [] (Suc cbBuf) = None"
| "SyzygyComputeCRC_loop crc (b # pbBuf) (Suc cbBuf) =
     SyzygyComputeCRC_loop (SyzygyComputeCRC_step crc b) pbBuf cbBuf"

text \<open>\<^verbatim>\<open>WORD SyzygyComputeCRC(const BYTE* pbBuf, BYTE cbBuf)\<close>, with \<^verbatim>\<open>crc = 0xFFFF\<close> at the start.\<close>

definition SyzygyComputeCRC :: "BYTE list \<Rightarrow> BYTE \<Rightarrow> WORD option" where
  "SyzygyComputeCRC pbBuf cbBuf = SyzygyComputeCRC_loop 0xFFFF pbBuf (unat cbBuf)"

text \<open>
  The reference the routine is compared with, written from the description
  ``CCITT-style CRC-16, polynomial 0x1021, initial value 0xFFFF, no final XOR'': the
  bitwise polynomial division. A byte is XORed into the high half of the register, then
  the register is shifted left eight times, the polynomial being XORed in whenever a one
  is shifted out.
\<close>

definition crc16_shift :: "WORD \<Rightarrow> WORD" where
  "crc16_shift c = (if bit c 15 then push_bit 1 c XOR 0x1021 else push_bit 1 c)"

definition crc16_ccitt_byte :: "WORD \<Rightarrow> BYTE \<Rightarrow> WORD" where
  "crc16_ccitt_byte c b = (crc16_shift ^^ 8) (c XOR push_bit 8 (ucast b))"

definition crc16_ccitt :: "BYTE list \<Rightarrow> WORD" where
  "crc16_ccitt bs = fold (\<lambda>b c. crc16_ccitt_byte c b) bs 0xFFFF"

text \<open>The step of the routine on a zero byte, used to compare the two as linear maps.\<close>

definition SyzygyComputeCRC_step0 :: "WORD \<Rightarrow> WORD" where
  "SyzygyComputeCRC_step0 c = SyzygyComputeCRC_step c 0"

section \<open>I2C hardware abstraction layer (I2CHAL.c)\<close>

subsection \<open>The bus\<close>

text \<open>
  \<^verbatim>\<open>I2CHALRead\<close> and \<^verbatim>\<open>I2CHALWrite\<close> are compiled for one of three transports, chosen
  by \<^verbatim>\<open>#if defined(__linux__)\<close> / \<^verbatim>\<open>#elif defined(PLATFORM_ZYNQ)\<close> / \<^verbatim>\<open>#else\<close> (the XIic
  driver). The build is a parameter of the model.
\<close>

datatype platform = PLATFORM_LINUX | PLATFORM_ZYNQ | PLATFORM_XIIC

text \<open>
  \<^verbatim>\<open>XST_SUCCESS\<close> comes from the Xilinx board support package (\<^verbatim>\<open>xstatus.h\<close>, \<^verbatim>\<open>0L\<close>),
  not from this repository.
\<close>

definition XST_SUCCESS :: int where
  "XST_SUCCESS = 0"

text \<open>
  \<^verbatim>\<open>INT32\<close> is \<^verbatim>\<open>int32_t\<close>: a 32-bit word read with \<open>sint\<close>.
\<close>

type_synonym INT32 = "32 word"

text \<open>
  The functions talk to the bus through \<^verbatim>\<open>write\<close>/\<^verbatim>\<open>read\<close> on the device file or through
  the Xilinx driver calls. The bus is given to the model as a script: one entry for each
  pass through the \<^verbatim>\<open>while\<close> loop, saying what the calls of that pass return. What the
  data-phase call returns may depend on the byte count it was asked for, so that part of
  an entry is a function of the count.

  For a read, \<open>addr_ret\<close> is the value returned by the call that sends the two address
  bytes, \<open>data_ret n\<close> the value returned by the call that receives \<open>n\<close> bytes, and
  \<open>data_in\<close> the bytes the slave delivers. For a write an entry is only the function
  from the byte count handed to the sending call to its return value.

  The file descriptor, the slave address and the delays (\<^verbatim>\<open>nanosleep\<close>, \<^verbatim>\<open>usleep\<close>)
  select the device and the timing and do not enter the values computed; the busy-wait
  \<^verbatim>\<open>while (XIicPs_BusIsBusy(&IicDev)) {}\<close> is taken to end; the error strings are only
  printed. None of them is part of the model.
\<close>

record read_reply =
  addr_ret :: int
  data_ret :: "int \<Rightarrow> int"
  data_in :: "nat \<Rightarrow> BYTE"

text \<open>
  The model returns, beside the results of the C function, the list of the transactions
  it issued. For a read: the two address bytes sent (\<^verbatim>\<open>rgbSnd\<close>), the count asked for
  (\<^verbatim>\<open>cbTrans\<close>, 0 when the address phase already failed), whether the transaction passed
  the checks of the code, and the number of bytes by which \<^verbatim>\<open>cbRecv\<close> advanced.
\<close>

record read_txn =
  rt_rgbSnd :: "BYTE list"
  rt_cbTrans :: int
  rt_ok :: bool
  rt_cb :: int

text \<open>
  The state of the read loop when it ends. \<open>rd_ret\<close> is \<open>Some True\<close> for
  \<^verbatim>\<open>return fTrue\<close>, \<open>Some False\<close> for \<^verbatim>\<open>goto lErrorExit\<close>, and \<open>None\<close> when the script
  has no entry left for a pass the loop still makes.
\<close>

record read_result =
  rd_ret :: "bool option"
  rd_cbRecv :: BYTE
  rd_pbRead :: "nat \<Rightarrow> BYTE"
  rd_txns :: "read_txn list"

text \<open>
  The checks after the two calls, one line for each build:
  \<^verbatim>\<open>2 != write(fdI2cDev, rgbSnd, 2)\<close>, \<^verbatim>\<open>XST_SUCCESS != XIicPs_MasterSendPolled(...)\<close>,
  \<^verbatim>\<open>2 != XIic_Send(...)\<close> for the address phase;
  \<^verbatim>\<open>0 >= cb\<close>, \<^verbatim>\<open>XST_SUCCESS != XIicPs_MasterRecvPolled(...)\<close>, \<^verbatim>\<open>0 >= cb\<close> for the data
  phase.
\<close>

definition addr_phase_failed :: "platform \<Rightarrow> int \<Rightarrow> bool" where
  "addr_phase_failed pf r =
     (case pf of PLATFORM_LINUX \<Rightarrow> 2 \<noteq> r
               | PLATFORM_ZYNQ \<Rightarrow> XST_SUCCESS \<noteq> r
               | PLATFORM_XIIC \<Rightarrow> 2 \<noteq> r)"

definition data_phase_failed :: "platform \<Rightarrow> int \<Rightarrow> bool" where
  "data_phase_failed pf r =
     (case pf of PLATFORM_LINUX \<Rightarrow> 0 \<ge> r
               | PLATFORM_ZYNQ \<Rightarrow> XST_SUCCESS \<noteq> r
               | PLATFORM_XIIC \<Rightarrow> 0 \<ge> r)"

text \<open>
  The amount added to \<^verbatim>\<open>cbRecv\<close> and \<^verbatim>\<open>addrRead\<close>: \<^verbatim>\<open>cb\<close> on Linux, \<^verbatim>\<open>cbTrans\<close> in
  the two other builds.
\<close>

definition read_advance :: "platform \<Rightarrow> int \<Rightarrow> int \<Rightarrow> int" where
  "read_advance pf cb cbTrans =
     (case pf of PLATFORM_LINUX \<Rightarrow> cb
               | PLATFORM_ZYNQ \<Rightarrow> cbTrans
               | PLATFORM_XIIC \<Rightarrow> cbTrans)"

text \<open>
  The number of bytes the receiving call put at \<^verbatim>\<open>&(pbRead[cbRecv])\<close>: the count it
  reports where it reports one, the count asked for on Zynq.
\<close>

definition read_stored :: "platform \<Rightarrow> int \<Rightarrow> int \<Rightarrow> int" where
  "read_stored pf cb cbTrans =
     (case pf of PLATFORM_LINUX \<Rightarrow> cb
               | PLATFORM_ZYNQ \<Rightarrow> cbTrans
               | PLATFORM_XIIC \<Rightarrow> cb)"

text \<open>
  Memory reached through a \<^verbatim>\<open>BYTE*\<close> is a function from the offset to the byte.
  \<open>store_bytes buf off n src\<close> is \<open>buf\<close> with the first \<open>n\<close> bytes of \<open>src\<close> stored from
  offset \<open>off\<close> on.
\<close>

definition store_bytes :: "(nat \<Rightarrow> BYTE) \<Rightarrow> nat \<Rightarrow> int \<Rightarrow> (nat \<Rightarrow> BYTE) \<Rightarrow> (nat \<Rightarrow> BYTE)" where
  "store_bytes buf off n src = (\<lambda>i. if off \<le> i \<and> int i < int off + n then src (i - off) else buf i)"

subsection \<open>I2CHALRead\<close>

text \<open>
  \<^verbatim>\<open>while ( cbRecv < cbRead ) { ... }\<close>. \<^verbatim>\<open>cbRecv\<close> and \<^verbatim>\<open>cbRead\<close> are \<^verbatim>\<open>BYTE\<close>s,
  \<^verbatim>\<open>addrRead\<close> is a \<^verbatim>\<open>WORD\<close>, \<^verbatim>\<open>cbTrans\<close> and \<^verbatim>\<open>cb\<close> are \<^verbatim>\<open>ssize_t\<close>. One pass:
  \<^verbatim>\<open>rgbSnd[0] = (addrRead >> 8); rgbSnd[1] = addrRead & 0xFF;\<close>, the address phase and its
  check, \<^verbatim>\<open>cbTrans = cbRead - cbRecv; if ( 32 < cbTrans ) cbTrans = 32;\<close>, the data phase
  and its check, \<^verbatim>\<open>cbRecv += ...; addrRead += ...;\<close> (both wrap at the width of the
  variable).
\<close>

fun I2CHALRead_loop ::
  "platform \<Rightarrow> read_reply list \<Rightarrow> BYTE \<Rightarrow> BYTE \<Rightarrow> WORD \<Rightarrow> (nat \<Rightarrow> BYTE) \<Rightarrow> read_result" where
  "I2CHALRead_loop pf [] cbRead cbRecv addrRead pbRead =
     \<lparr>rd_ret = (if cbRecv < cbRead then None else Some True), rd_cbRecv = cbRecv,
      rd_pbRead = pbRead, rd_txns = []\<rparr>"
| "I2CHALRead_loop pf (r # rs) cbRead cbRecv addrRead pbRead =
     (if cbRecv < cbRead then
        (let rgbSnd = [ucast (drop_bit 8 addrRead), ucast (addrRead AND 0xFF)] :: BYTE list in
         if addr_phase_failed pf (addr_ret r) then
           \<lparr>rd_ret = Some False, rd_cbRecv = cbRecv, rd_pbRead = pbRead,
            rd_txns = [\<lparr>rt_rgbSnd = rgbSnd, rt_cbTrans = 0, rt_ok = False, rt_cb = 0\<rparr>]\<rparr>
         else
           (let cbTrans = uint cbRead - uint cbRecv;
                cbTrans = (if 32 < cbTrans then 32 else cbTrans);
                cb = data_ret r cbTrans
            in if data_phase_failed pf cb then
                 \<lparr>rd_ret = Some False, rd_cbRecv = cbRecv, rd_pbRead = pbRead,
                  rd_txns = [\<lparr>rt_rgbSnd = rgbSnd, rt_cbTrans = cbTrans, rt_ok = False, rt_cb = 0\<rparr>]\<rparr>
               else
                 (let n = read_advance pf cb cbTrans;
                      res = I2CHALRead_loop pf rs cbRead (cbRecv + word_of_int n)
                              (addrRead + word_of_int n)
                              (store_bytes pbRead (unat cbRecv) (read_stored pf cb cbTrans) (data_in r))
                  in res\<lparr>rd_txns :=
                       \<lparr>rt_rgbSnd = rgbSnd, rt_cbTrans = cbTrans, rt_ok = True, rt_cb = n\<rparr>
                       # rd_txns res\<rparr>)))
      else
        \<lparr>rd_ret = Some True, rd_cbRecv = cbRecv, rd_pbRead = pbRead, rd_txns = []\<rparr>)"

text \<open>
  What a call of \<^verbatim>\<open>I2CHALRead\<close> leaves behind: the return value, the content of
  \<^verbatim>\<open>*pcbRead\<close>, the caller's buffer, and the transactions issued. The pointer
  \<^verbatim>\<open>pcbRead\<close> is \<open>None\<close> when it is \<^verbatim>\<open>NULL\<close> and \<open>Some v\<close> when it points to a
  \<^verbatim>\<open>WORD\<close> holding \<open>v\<close>.
\<close>

record hal_read =
  hr_ret :: "bool option"
  hr_pcbRead :: "WORD option"
  hr_pbRead :: "nat \<Rightarrow> BYTE"
  hr_txns :: "read_txn list"

text \<open>
  \<^verbatim>\<open>BOOL I2CHALRead(int fdI2cDev, BYTE slaveAddr, WORD addrRead, BYTE* pbRead,\<close>
  \<^verbatim>\<open>BYTE cbRead, WORD* pcbRead, UINT32 uWait)\<close>. On Linux the function first sets the slave
  address, \<^verbatim>\<open>if ( 0 > ioctl(fdI2cDev, I2C_SLAVE, slaveAddr) ) goto lErrorExit;\<close>;
  \<open>ioctl_ret\<close> is what that call returns. Both exits store \<^verbatim>\<open>cbRecv\<close> through
  \<^verbatim>\<open>pcbRead\<close> when it is not \<^verbatim>\<open>NULL\<close>.
\<close>

definition I2CHALRead ::
  "platform \<Rightarrow> int \<Rightarrow> read_reply list \<Rightarrow> WORD \<Rightarrow> (nat \<Rightarrow> BYTE) \<Rightarrow> BYTE \<Rightarrow> WORD option \<Rightarrow> hal_read" where
  "I2CHALRead pf ioctl_ret bus addrRead pbRead cbRead pcbRead =
     (let cbRecv = 0 :: BYTE in
      if pf = PLATFORM_LINUX \<and> 0 > ioctl_ret then
        \<lparr>hr_ret = Some False, hr_pcbRead = map_option (\<lambda>_. ucast cbRecv) pcbRead,
         hr_pbRead = pbRead, hr_txns = []\<rparr>
      else
        (let res = I2CHALRead_loop pf bus cbRead cbRecv addrRead pbRead in
         \<lparr>hr_ret = rd_ret res,
          hr_pcbRead = (if rd_ret res = None then pcbRead
                        else map_option (\<lambda>_. ucast (rd_cbRecv res)) pcbRead),
          hr_pbRead = rd_pbRead res, hr_txns = rd_txns res\<rparr>))"

subsection \<open>I2CHALWrite\<close>

text \<open>
  A write transaction in the list: the address it was staged for, \<^verbatim>\<open>cbTrans\<close>, the
  indices of \<^verbatim>\<open>rgbSnd\<close> that were assigned while staging (in order), the \<^verbatim>\<open>cbTrans\<close>
  bytes of \<^verbatim>\<open>rgbSnd\<close> handed to the sending call, the bytes copied from \<^verbatim>\<open>pbWrite\<close>,
  and whether the transaction passed the check of the code.
\<close>

record write_txn =
  wt_addr :: WORD
  wt_cbTrans :: BYTE
  wt_staged :: "nat list"
  wt_sent :: "BYTE list"
  wt_payload :: "BYTE list"
  wt_ok :: bool

text \<open>
  \<^verbatim>\<open>rgbSnd\<close> is declared \<^verbatim>\<open>BYTE rgbSnd[32]\<close>, and the staging loop assigns
  \<^verbatim>\<open>rgbSnd[ib]\<close> without comparing \<^verbatim>\<open>ib\<close> with 32. An assignment past the end of the
  array has no defined behaviour in C: from there on the language says nothing about
  what the function sends, counts or returns. The model stops at that assignment and
  records it: the value of \<^verbatim>\<open>cbTrans\<close>, which is the bound of the staging loop, and the
  index assigned.
\<close>

record staging_fault =
  sf_cbTrans :: BYTE
  sf_index :: nat

text \<open>
  The state of the write loop when it ends. \<open>wr_ret\<close> is \<open>Some True\<close> for
  \<^verbatim>\<open>return fTrue\<close>, \<open>Some False\<close> for \<^verbatim>\<open>goto lErrorExit\<close>, and \<open>None\<close> when the model
  gives no return value: the script has no entry left for a pass the loop still makes
  (\<open>wr_fault = None\<close>), or the staging loop left the array (\<open>wr_fault = Some f\<close>).
\<close>

record write_result =
  wr_ret :: "bool option"
  wr_cbSent :: BYTE
  wr_txns :: "write_txn list"
  wr_fault :: "staging_fault option"

text \<open>
  \<^verbatim>\<open>for ( ib = 2; ib < cbTrans; ib++ ) { rgbSnd[ib] = *pbWrite; pbWrite++; }\<close>.
  The array \<^verbatim>\<open>rgbSnd\<close> is a list of its 32 bytes. The result is \<open>Inl ib\<close> when the loop
  reaches an assignment \<^verbatim>\<open>rgbSnd[ib]\<close> with \<open>ib\<close> not below the length of the array, and
  otherwise \<open>Inr\<close> of the array, the advanced \<^verbatim>\<open>pbWrite\<close> and the indices assigned, in
  order. \<^verbatim>\<open>ib\<close> is a \<^verbatim>\<open>BYTE\<close>; it stays below \<^verbatim>\<open>cbTrans\<close>, another \<^verbatim>\<open>BYTE\<close>, and so
  never wraps. \<^verbatim>\<open>*pbWrite\<close> is the byte at offset 0 of the memory at \<^verbatim>\<open>pbWrite\<close>, and
  \<^verbatim>\<open>pbWrite++\<close> moves that memory by one.
\<close>

function stage_payload ::
  "nat \<Rightarrow> nat \<Rightarrow> BYTE list \<Rightarrow> (nat \<Rightarrow> BYTE) \<Rightarrow> nat + (BYTE list \<times> (nat \<Rightarrow> BYTE) \<times> nat list)" where
  "stage_payload ib cbTrans rgbSnd pbWrite =
     (if ib < cbTrans then
        (if length rgbSnd \<le> ib then Inl ib
         else (case stage_payload (Suc ib) cbTrans (rgbSnd[ib := pbWrite 0]) (\<lambda>i. pbWrite (Suc i)) of
                 Inl i \<Rightarrow> Inl i
               | Inr (rgbSnd', pbWrite', idx) \<Rightarrow> Inr (rgbSnd', pbWrite', ib # idx)))
      else Inr (rgbSnd, pbWrite, []))"
  by pat_completeness auto
termination
  by (relation "measure (\<lambda>(ib, cbTrans, rgbSnd, pbWrite). cbTrans - ib)") auto

text \<open>
  \<^verbatim>\<open>cbTrans = 2 + (cbWrite - cbSent); if ( cbDevRxMax < cbTrans ) cbTrans = cbDevRxMax;\<close>
  \<^verbatim>\<open>cbTrans\<close> is a \<^verbatim>\<open>BYTE\<close>: the sum is computed in \<^verbatim>\<open>int\<close> and truncated to 8 bits by the
  assignment, and so is \<^verbatim>\<open>cbDevRxMax\<close>; the comparison is between \<^verbatim>\<open>int\<close>s.
\<close>

definition I2CHALWrite_cbTrans :: "BYTE \<Rightarrow> BYTE \<Rightarrow> INT32 \<Rightarrow> BYTE" where
  "I2CHALWrite_cbTrans cbWrite cbSent cbDevRxMax =
     (let cbTrans = (word_of_int (2 + (uint cbWrite - uint cbSent)) :: BYTE)
      in if sint cbDevRxMax < uint cbTrans then ucast cbDevRxMax else cbTrans)"

text \<open>
  \<^verbatim>\<open>rgbSnd[0] = (addrWrite >> 8); rgbSnd[1] = addrWrite & 0xFF;\<close> and the staging loop.
  The result is the fault when the staging loop leaves the array, and otherwise the
  transaction as it is handed to the sending call (the first \<^verbatim>\<open>cbTrans\<close> bytes of
  \<^verbatim>\<open>rgbSnd\<close>), the staging buffer and the advanced \<^verbatim>\<open>pbWrite\<close>.
\<close>

definition I2CHALWrite_stage ::
  "WORD \<Rightarrow> BYTE \<Rightarrow> BYTE list \<Rightarrow> (nat \<Rightarrow> BYTE)
     \<Rightarrow> staging_fault + (write_txn \<times> BYTE list \<times> (nat \<Rightarrow> BYTE))" where
  "I2CHALWrite_stage addrWrite cbTrans rgbSnd pbWrite =
     (let rgbSnd = rgbSnd[0 := ucast (drop_bit 8 addrWrite)];
          rgbSnd = rgbSnd[1 := ucast (addrWrite AND 0xFF)]
      in case stage_payload 2 (unat cbTrans) rgbSnd pbWrite of
           Inl ib \<Rightarrow> Inl \<lparr>sf_cbTrans = cbTrans, sf_index = ib\<rparr>
         | Inr (rgbSnd, pbWrite, idx) \<Rightarrow>
             Inr (\<lparr>wt_addr = addrWrite, wt_cbTrans = cbTrans, wt_staged = 0 # 1 # idx,
                   wt_sent = take (unat cbTrans) rgbSnd,
                   wt_payload = map ((!) rgbSnd) idx, wt_ok = True\<rparr>,
                  rgbSnd, pbWrite))"

text \<open>
  The check after the sending call: \<^verbatim>\<open>cb != cbTrans\<close> on Linux and with XIic,
  \<^verbatim>\<open>XST_SUCCESS != XIicPs_MasterSendPolled(...)\<close> on Zynq.
\<close>

definition send_failed :: "platform \<Rightarrow> int \<Rightarrow> BYTE \<Rightarrow> bool" where
  "send_failed pf cb cbTrans =
     (case pf of PLATFORM_LINUX \<Rightarrow> cb \<noteq> uint cbTrans
               | PLATFORM_ZYNQ \<Rightarrow> XST_SUCCESS \<noteq> cb
               | PLATFORM_XIIC \<Rightarrow> cb \<noteq> uint cbTrans)"

text \<open>
  \<^verbatim>\<open>while ( cbSent < cbWrite ) { ... cbSent += (cbTrans-2); addrWrite += (cbTrans-2); ... }\<close>
  \<^verbatim>\<open>cbSent\<close> is a \<^verbatim>\<open>BYTE\<close> and \<^verbatim>\<open>addrWrite\<close> a \<^verbatim>\<open>WORD\<close>: both additions wrap at the
  width of the variable. A pass stages the transaction before it calls the bus, so when
  the script has no entry left the pass is still made up to the sending call.
\<close>

fun I2CHALWrite_loop ::
  "platform \<Rightarrow> (int \<Rightarrow> int) list \<Rightarrow> BYTE \<Rightarrow> INT32 \<Rightarrow> BYTE \<Rightarrow> WORD \<Rightarrow> (nat \<Rightarrow> BYTE) \<Rightarrow> BYTE list
     \<Rightarrow> write_result" where
  "I2CHALWrite_loop pf [] cbWrite cbDevRxMax cbSent addrWrite pbWrite rgbSnd =
     (if cbSent < cbWrite then
        (let cbTrans = I2CHALWrite_cbTrans cbWrite cbSent cbDevRxMax in
         case I2CHALWrite_stage addrWrite cbTrans rgbSnd pbWrite of
           Inl fault \<Rightarrow>
             \<lparr>wr_ret = None, wr_cbSent = cbSent, wr_txns = [], wr_fault = Some fault\<rparr>
         | Inr staged \<Rightarrow>
             \<lparr>wr_ret = None, wr_cbSent = cbSent, wr_txns = [], wr_fault = None\<rparr>)
      else \<lparr>wr_ret = Some True, wr_cbSent = cbSent, wr_txns = [], wr_fault = None\<rparr>)"
| "I2CHALWrite_loop pf (r # rs) cbWrite cbDevRxMax cbSent addrWrite pbWrite rgbSnd =
     (if cbSent < cbWrite then
        (let cbTrans = I2CHALWrite_cbTrans cbWrite cbSent cbDevRxMax in
         case I2CHALWrite_stage addrWrite cbTrans rgbSnd pbWrite of
           Inl fault \<Rightarrow>
             \<lparr>wr_ret = None, wr_cbSent = cbSent, wr_txns = [], wr_fault = Some fault\<rparr>
         | Inr (txn, rgbSnd, pbWrite) \<Rightarrow>
             if send_failed pf (r (uint cbTrans)) cbTrans then
               \<lparr>wr_ret = Some False, wr_cbSent = cbSent, wr_txns = [txn\<lparr>wt_ok := False\<rparr>],
                wr_fault = None\<rparr>
             else
               (let res = I2CHALWrite_loop pf rs cbWrite cbDevRxMax
                            (cbSent + (cbTrans - 2)) (addrWrite + (ucast cbTrans - 2))
                            pbWrite rgbSnd
                in res\<lparr>wr_txns := txn # wr_txns res\<rparr>))
      else \<lparr>wr_ret = Some True, wr_cbSent = cbSent, wr_txns = [], wr_fault = None\<rparr>)"

text \<open>
  What a call of \<^verbatim>\<open>I2CHALWrite\<close> leaves behind: the return value, the content of
  \<^verbatim>\<open>*pcbWritten\<close>, the transactions sent, and the staging fault if there was one. After
  a fault the model gives no return value and leaves \<^verbatim>\<open>*pcbWritten\<close> as it was.
\<close>

record hal_write =
  hw_ret :: "bool option"
  hw_pcbWritten :: "WORD option"
  hw_txns :: "write_txn list"
  hw_fault :: "staging_fault option"

text \<open>
  \<^verbatim>\<open>BOOL I2CHALWrite(int fdI2cDev, BYTE slaveAddr, WORD addrWrite, BYTE* pbWrite,\<close>
  \<^verbatim>\<open>BYTE cbWrite, INT32 cbDevRxMax, WORD* pcbWritten, INT32 uWait)\<close>. \<^verbatim>\<open>rgbSnd\<close> is a
  local array of 32 bytes that is not initialised; every byte of it that is sent has
  been assigned in the same pass or is one of the two address bytes, so its first
  content does not show and is taken to be zero.
\<close>

definition I2CHALWrite ::
  "platform \<Rightarrow> int \<Rightarrow> (int \<Rightarrow> int) list \<Rightarrow> WORD \<Rightarrow> (nat \<Rightarrow> BYTE) \<Rightarrow> BYTE \<Rightarrow> INT32 \<Rightarrow> WORD option
     \<Rightarrow> hal_write" where
  "I2CHALWrite pf ioctl_ret bus addrWrite pbWrite cbWrite cbDevRxMax pcbWritten =
     (let cbSent = 0 :: BYTE in
      if pf = PLATFORM_LINUX \<and> 0 > ioctl_ret then
        \<lparr>hw_ret = Some False, hw_pcbWritten = map_option (\<lambda>_. ucast cbSent) pcbWritten,
         hw_txns = [], hw_fault = None\<rparr>
      else
        (let res = I2CHALWrite_loop pf bus cbWrite cbDevRxMax cbSent addrWrite pbWrite
                     (replicate 32 0) in
         \<lparr>hw_ret = wr_ret res,
          hw_pcbWritten = (if wr_ret res = None then pcbWritten
                           else map_option (\<lambda>_. ucast (wr_cbSent res)) pcbWritten),
          hw_txns = wr_txns res, hw_fault = wr_fault res\<rparr>))"

subsection \<open>The callers (PlatformMCU.c, syzygy.c)\<close>

text \<open>
  Both files define a macro \<^verbatim>\<open>cbPmcuRxMax\<close>: \<^verbatim>\<open>#define cbPmcuRxMax 6\<close> in PlatformMCU.c
  and \<^verbatim>\<open>#define cbPmcuRxMax 34\<close> in syzygy.c.
\<close>

definition PlatformMCU_cbPmcuRxMax :: INT32 where
  "PlatformMCU_cbPmcuRxMax = 6"

definition syzygy_cbPmcuRxMax :: INT32 where
  "syzygy_cbPmcuRxMax = 34"

text \<open>
  \<^verbatim>\<open>return I2CHALRead(fdI2cDev, addrPlatformMcuI2c, addrRead, pbRead, cbRead, pcbRead, 50);\<close>
\<close>

definition PmcuI2cRead ::
  "platform \<Rightarrow> int \<Rightarrow> read_reply list \<Rightarrow> WORD \<Rightarrow> (nat \<Rightarrow> BYTE) \<Rightarrow> BYTE \<Rightarrow> WORD option \<Rightarrow> hal_read" where
  "PmcuI2cRead pf ioctl_ret bus addrRead pbRead cbRead pcbRead =
     I2CHALRead pf ioctl_ret bus addrRead pbRead cbRead pcbRead"

text \<open>
  \<^verbatim>\<open>return I2CHALWrite(fdI2cDev, addrPlatformMcuI2c, addrWrite, pbWrite, cbWrite,\<close>
  \<^verbatim>\<open>cbPmcuRxMax, pcbWritten, 0);\<close>
\<close>

definition PmcuI2cWrite ::
  "platform \<Rightarrow> int \<Rightarrow> (int \<Rightarrow> int) list \<Rightarrow> WORD \<Rightarrow> (nat \<Rightarrow> BYTE) \<Rightarrow> BYTE \<Rightarrow> WORD option \<Rightarrow> hal_write" where
  "PmcuI2cWrite pf ioctl_ret bus addrWrite pbWrite cbWrite pcbWritten =
     I2CHALWrite pf ioctl_ret bus addrWrite pbWrite cbWrite PlatformMCU_cbPmcuRxMax pcbWritten"

text \<open>
  \<^verbatim>\<open>SyzygyI2cRead(..., WORD cbRead, WORD* pcbRead)\<close> passes its \<^verbatim>\<open>WORD\<close> length to the
  \<^verbatim>\<open>BYTE cbRead\<close> parameter of \<^verbatim>\<open>I2CHALRead\<close>: the conversion keeps the low 8 bits.
  \<^verbatim>\<open>SyzygyI2cWrite\<close> does the same with \<^verbatim>\<open>cbWrite\<close>.
\<close>

definition SyzygyI2cRead ::
  "platform \<Rightarrow> int \<Rightarrow> read_reply list \<Rightarrow> WORD \<Rightarrow> (nat \<Rightarrow> BYTE) \<Rightarrow> WORD \<Rightarrow> WORD option \<Rightarrow> hal_read" where
  "SyzygyI2cRead pf ioctl_ret bus addrRead pbRead cbRead pcbRead =
     I2CHALRead pf ioctl_ret bus addrRead pbRead (ucast cbRead) pcbRead"

definition SyzygyI2cWrite ::
  "platform \<Rightarrow> int \<Rightarrow> (int \<Rightarrow> int) list \<Rightarrow> WORD \<Rightarrow> (nat \<Rightarrow> BYTE) \<Rightarrow> WORD \<Rightarrow> WORD option \<Rightarrow> hal_write" where
  "SyzygyI2cWrite pf ioctl_ret bus addrWrite pbWrite cbWrite pcbWritten =
     I2CHALWrite pf ioctl_ret bus addrWrite pbWrite (ucast cbWrite) syzygy_cbPmcuRxMax pcbWritten"

subsection \<open>Notions used to state the properties\<close>

text \<open>The bytes moved by a list of transactions, as the code counts them.\<close>

definition payload_total :: "write_txn list \<Rightarrow> int" where
  "payload_total ts = int (sum_list (map (\<lambda>t. length (wt_payload t)) ts))"

definition cb_total :: "read_txn list \<Rightarrow> int" where
  "cb_total ts = sum_list (map rt_cb ts)"

text \<open>
  What the bus does is described by what its calls return, without reference to the
  checks the code makes. \<^verbatim>\<open>write(2)\<close>, \<^verbatim>\<open>read(2)\<close>, \<^verbatim>\<open>XIic_Send\<close> and \<^verbatim>\<open>XIic_Recv\<close>
  return the number of bytes transferred (\<^verbatim>\<open>write\<close> and \<^verbatim>\<open>read\<close> return \<open>-1\<close> for an
  error); \<^verbatim>\<open>XIicPs_MasterSendPolled\<close> and \<^verbatim>\<open>XIicPs_MasterRecvPolled\<close> return
  \<^verbatim>\<open>XST_SUCCESS\<close> or an error status.

  A write entry of the script that accepts whatever it is handed: every count is
  transferred in full. And one that refuses: no count is.
\<close>

definition send_accepted :: "platform \<Rightarrow> (int \<Rightarrow> int) \<Rightarrow> bool" where
  "send_accepted pf w \<longleftrightarrow>
     (\<forall>c :: BYTE. case pf of PLATFORM_LINUX \<Rightarrow> w (uint c) = uint c
                           | PLATFORM_ZYNQ \<Rightarrow> w (uint c) = XST_SUCCESS
                           | PLATFORM_XIIC \<Rightarrow> w (uint c) = uint c)"


text \<open>
  A read entry of the script that transfers in full: the two address bytes are sent,
  and every positive count asked for is received in full.
\<close>

definition read_complete :: "platform \<Rightarrow> read_reply \<Rightarrow> bool" where
  "read_complete pf r \<longleftrightarrow>
     (case pf of
        PLATFORM_LINUX \<Rightarrow> addr_ret r = 2 \<and> (\<forall>c. 0 < c \<longrightarrow> data_ret r c = c)
      | PLATFORM_ZYNQ \<Rightarrow> addr_ret r = XST_SUCCESS \<and> (\<forall>c. 0 < c \<longrightarrow> data_ret r c = XST_SUCCESS)
      | PLATFORM_XIIC \<Rightarrow> addr_ret r = 2 \<and> (\<forall>c. 0 < c \<longrightarrow> data_ret r c = c))"


text \<open>
  Read entries for examples: one that delivers everything, one whose data phase
  delivers nothing, and one whose address phase is refused (\<^verbatim>\<open>write\<close> returns \<open>-1\<close>).
\<close>

definition full_read_reply :: read_reply where
  "full_read_reply = \<lparr>addr_ret = 2, data_ret = id, data_in = of_nat\<rparr>"



section \<open>SYZYGY DNA header CRC: lemmas\<close>

lemma crc16_shift_xor: "crc16_shift (a XOR b) = crc16_shift a XOR crc16_shift b"
  unfolding crc16_shift_def
  by (cases "bit a 15"; cases "bit b 15") (simp_all add: bit_xor_iff push_bit_xor xor.assoc xor.left_commute xor.commute)

lemma crc16_shift_zero: "crc16_shift 0 = 0"
  by (simp add: crc16_shift_def)

lemma crc16_shift_pow_xor: "(crc16_shift ^^ n) (a XOR b) = (crc16_shift ^^ n) a XOR (crc16_shift ^^ n) b"
  by (induction n) (simp_all add: crc16_shift_xor)

lemma crc16_shift_pow_zero: "(crc16_shift ^^ n) 0 = 0"
  by (induction n) (simp_all add: crc16_shift_zero)


lemma word16_mask_ffff: "(w :: WORD) AND 0xFFFF = w"
proof -
  have "(0xFFFF :: WORD) = - 1" by simp
  then show ?thesis by (simp only: and.right_neutral)
qed

lemma SyzygyComputeCRC_step0_alt: "SyzygyComputeCRC_step0 c = push_bit 8 c XOR push_bit 12 (drop_bit 8 c XOR drop_bit 12 c) XOR push_bit 5 (drop_bit 8 c XOR drop_bit 12 c) XOR (drop_bit 8 c XOR drop_bit 12 c)"
  by (simp add: SyzygyComputeCRC_step0_def SyzygyComputeCRC_step_def Let_def word16_mask_ffff drop_bit_xor drop_bit_drop_bit)

lemma SyzygyComputeCRC_step0_xor: "SyzygyComputeCRC_step0 (a XOR b) = SyzygyComputeCRC_step0 a XOR SyzygyComputeCRC_step0 b"
  by (simp add: SyzygyComputeCRC_step0_alt push_bit_xor drop_bit_xor xor.assoc xor.left_commute xor.commute)

lemma SyzygyComputeCRC_step0_zero: "SyzygyComputeCRC_step0 0 = 0" by (simp add: SyzygyComputeCRC_step0_alt)

lemma funpow_8: "(f ^^ 8) x = f (f (f (f (f (f (f (f x)))))))"
  by (simp add: eval_nat_numeral)

lemma crc_steps_agree_on_bits: "k < 16 \<Longrightarrow> (crc16_shift ^^ 8) (push_bit k 1) = SyzygyComputeCRC_step0 (push_bit k 1)"
proof -
  assume "k < 16"
  then have "k = 0 \<or> k = 1 \<or> k = 2 \<or> k = 3 \<or> k = 4 \<or> k = 5 \<or> k = 6 \<or> k = 7
    \<or> k = 8 \<or> k = 9 \<or> k = 10 \<or> k = 11 \<or> k = 12 \<or> k = 13 \<or> k = 14 \<or> k = 15"
    by arith
  then show ?thesis
    by (elim disjE) (simp_all add: SyzygyComputeCRC_step0_alt crc16_shift_def funpow_8)
qed

lemma take_bit_Suc_xor: "take_bit (Suc k) (c :: WORD) = take_bit k c XOR (if bit c k then push_bit k 1 else 0)"
  by (rule bit_eqI) (auto simp add: bit_simps less_Suc_eq)

lemma crc_steps_agree_on_prefix: "k \<le> 16 \<Longrightarrow> (crc16_shift ^^ 8) (take_bit k c) = SyzygyComputeCRC_step0 (take_bit k c)"
proof (induction k)
  case 0
  then show ?case by (simp add: crc16_shift_pow_zero SyzygyComputeCRC_step0_zero)
next
  case (Suc k)
  then have k: "k < 16" and ih: "(crc16_shift ^^ 8) (take_bit k c) = SyzygyComputeCRC_step0 (take_bit k c)" by simp_all
  show ?case
    by (simp only: take_bit_Suc_xor crc16_shift_pow_xor SyzygyComputeCRC_step0_xor ih crc_steps_agree_on_bits[OF k] crc16_shift_pow_zero SyzygyComputeCRC_step0_zero if_distrib[of "crc16_shift ^^ 8"] if_distrib[of SyzygyComputeCRC_step0])
qed

lemma crc_steps_agree: "(crc16_shift ^^ 8) c = SyzygyComputeCRC_step0 c"
  using crc_steps_agree_on_prefix[of 16 c] by (simp add: take_bit_word_eq_self)

lemma byte_hi_roundtrip: "drop_bit 8 (push_bit 8 (ucast (b::BYTE)) :: WORD) = ucast b"
  by (rule bit_eqI) (auto simp: bit_simps dest: bit_imp_le_length)
lemma byte_hi_shift: "drop_bit 12 (push_bit 8 (ucast (b::BYTE)) :: WORD) = drop_bit 4 (ucast b)"
  by (rule bit_eqI) (auto simp: bit_simps dest: bit_imp_le_length)
lemma byte_shift_out: "push_bit 8 (push_bit 8 (ucast (b::BYTE)) :: WORD) = 0"
  by (rule bit_eqI) (auto simp: bit_simps)

lemma crc_step_via_zero_byte: "SyzygyComputeCRC_step c b = SyzygyComputeCRC_step0 (c XOR push_bit 8 (ucast b))"
  by (simp add: SyzygyComputeCRC_step0_alt SyzygyComputeCRC_step_def Let_def word16_mask_ffff drop_bit_xor push_bit_xor byte_hi_roundtrip byte_hi_shift byte_shift_out drop_bit_drop_bit xor.assoc xor.left_commute xor.commute)

lemma crc_step_is_ccitt: "SyzygyComputeCRC_step c b = crc16_ccitt_byte c b"
  by (simp add: crc16_ccitt_byte_def crc_steps_agree crc_step_via_zero_byte)


lemma crc_loop_fold:
  "SyzygyComputeCRC_loop c bs (length bs) = Some (fold (\<lambda>b c. SyzygyComputeCRC_step c b) bs c)"
  by (induction bs arbitrary: c) simp_all

lemma unat_byte_of_length: "n \<le> 255 \<Longrightarrow> unat (word_of_nat n :: BYTE) = n"
  by (simp add: unat_of_nat)

lemma crc_whole_buffer: "length bs \<le> 255 \<Longrightarrow> SyzygyComputeCRC bs (word_of_nat (length bs)) = Some (crc16_ccitt bs)"
proof -
  assume "length bs \<le> 255"
  moreover have "(\<lambda>b c. SyzygyComputeCRC_step c b) = (\<lambda>b c. crc16_ccitt_byte c b)"
    by (simp add: crc_step_is_ccitt)
  ultimately show ?thesis
    by (simp add: SyzygyComputeCRC_def unat_byte_of_length crc_loop_fold crc16_ccitt_def)
qed

lemma crc_hi_byte_back: "ucast (ucast (drop_bit 8 (c :: WORD)) :: BYTE) = drop_bit 8 c"
  by (rule bit_eqI) (auto simp: bit_simps dest: bit_imp_le_length)

lemma crc_lo_byte_back: "(ucast (ucast (c :: WORD) :: BYTE) :: WORD) = drop_bit 8 (push_bit 8 c)"
  by (rule bit_eqI) (auto simp: bit_simps)

lemma crc_feed_hi: "SyzygyComputeCRC_step c (ucast (drop_bit 8 c)) = push_bit 8 c"
  by (simp add: SyzygyComputeCRC_step_def Let_def crc_hi_byte_back word16_mask_ffff)

lemma crc_feed_lo: "SyzygyComputeCRC_step (push_bit 8 c) (ucast c) = 0"
proof -
  have "push_bit 8 (push_bit 8 c) = (0 :: WORD)"
    by (rule bit_eqI) (auto simp: bit_simps)
  then show ?thesis
    by (simp add: SyzygyComputeCRC_step_def Let_def crc_lo_byte_back word16_mask_ffff)
qed

lemma crc_fold_append:
  "fold (\<lambda>b c. SyzygyComputeCRC_step c b) (hdr @ [ucast (drop_bit 8 crc), ucast crc]) c0 = 0"
  if "fold (\<lambda>b c. SyzygyComputeCRC_step c b) hdr c0 = crc"
  using that by (simp add: crc_feed_hi crc_feed_lo)

lemma crc_whole_buffer_src: "length bs \<le> 255 \<Longrightarrow> SyzygyComputeCRC bs (word_of_nat (length bs)) = Some (fold (\<lambda>b c. SyzygyComputeCRC_step c b) bs 0xFFFF)"
  by (simp add: SyzygyComputeCRC_def unat_byte_of_length crc_loop_fold)

lemma crc_appended_is_zero:
  assumes "length hdr + 2 \<le> 255" and "SyzygyComputeCRC hdr (word_of_nat (length hdr)) = Some crc"
  shows "SyzygyComputeCRC (hdr @ [ucast (drop_bit 8 crc), ucast crc]) (word_of_nat (length hdr + 2)) = Some 0"
proof -
  define bs where "bs = hdr @ [ucast (drop_bit 8 crc), ucast crc]"
  have len: "length bs = length hdr + 2" by (simp add: bs_def)
  from assms have "fold (\<lambda>b c. SyzygyComputeCRC_step c b) hdr 0xFFFF = crc"
    by (simp add: crc_whole_buffer_src)
  then have "fold (\<lambda>b c. SyzygyComputeCRC_step c b) bs 0xFFFF = 0"
    unfolding bs_def by (rule crc_fold_append)
  moreover have "SyzygyComputeCRC bs (word_of_nat (length bs)) = Some (fold (\<lambda>b c. SyzygyComputeCRC_step c b) bs 0xFFFF)"
    using assms(1) len by (intro crc_whole_buffer_src) simp
  ultimately show ?thesis unfolding len bs_def by simp
qed

section \<open>I2C hardware abstraction layer: lemmas\<close>

subsection \<open>Staging and the transaction length\<close>

declare stage_payload.simps [simp del]

lemma stage_payload_Inr:
  "stage_payload ib n rg pb = Inr (rg', pb', idx) \<Longrightarrow>
     idx = [ib..<n] \<and> length rg' = length rg \<and> (\<forall>i<ib. rg' ! i = rg ! i)
     \<and> (n \<le> ib \<or> n \<le> length rg)"
proof (induction ib n rg pb arbitrary: rg' pb' idx rule: stage_payload.induct)
  case (1 ib cbTrans rgbSnd pbWrite)
  show ?case
  proof (cases "ib < cbTrans")
    case False
    with "1.prems" show ?thesis by (subst (asm) stage_payload.simps) simp
  next
    case lt: True
    show ?thesis
    proof (cases "length rgbSnd \<le> ib")
      case True
      with lt "1.prems" show ?thesis by (subst (asm) stage_payload.simps) simp
    next
      case fits: False
      from "1.prems" lt fits obtain a b c where
        r: "stage_payload (Suc ib) cbTrans (rgbSnd[ib := pbWrite 0]) (\<lambda>i. pbWrite (Suc i))
              = Inr (a, b, c)"
        and e: "rg' = a" "idx = ib # c"
        by (subst (asm) stage_payload.simps) (auto split: sum.splits)
      from "1.IH"[OF lt fits r]
      have ih: "c = [Suc ib..<cbTrans]" "length a = length rgbSnd"
        "\<forall>i<Suc ib. a ! i = rgbSnd[ib := pbWrite 0] ! i"
        "cbTrans \<le> Suc ib \<or> cbTrans \<le> length rgbSnd"
        by simp_all
      from ih(3) have keep: "\<forall>i<ib. a ! i = rgbSnd ! i" by simp
      from ih(4) fits have "cbTrans \<le> length rgbSnd" by linarith
      with e ih(1,2) keep lt show ?thesis by (simp add: upt_conv_Cons)
    qed
  qed
qed

lemma stage_payload_fits:
  "n \<le> length rg \<Longrightarrow> \<exists>rg' pb'. stage_payload ib n rg pb = Inr (rg', pb', [ib..<n])"
proof (induction ib n rg pb rule: stage_payload.induct)
  case (1 ib cbTrans rgbSnd pbWrite)
  show ?case
  proof (cases "ib < cbTrans")
    case False
    then show ?thesis by (subst stage_payload.simps) simp
  next
    case lt: True
    with "1.prems" have fits: "\<not> length rgbSnd \<le> ib" by simp
    from "1.prems" have "cbTrans \<le> length (rgbSnd[ib := pbWrite 0])" by simp
    from "1.IH"[OF lt fits this]
    obtain a b where
      "stage_payload (Suc ib) cbTrans (rgbSnd[ib := pbWrite 0]) (\<lambda>i. pbWrite (Suc i))
         = Inr (a, b, [Suc ib..<cbTrans])"
      by blast
    with lt fits show ?thesis by (subst stage_payload.simps) (simp add: upt_conv_Cons)
  qed
qed


lemma take_as_map_nth: "n \<le> length xs \<Longrightarrow> take n xs = map ((!) xs) [0..<n]"
  by (simp add: list_eq_iff_nth_eq)

lemma stage_txn:
  assumes "I2CHALWrite_stage a c rg pb = Inr (t, rg', pb')" and "length rg = 32"
  shows "wt_addr t = a \<and> wt_cbTrans t = c \<and> wt_staged t = 0 # 1 # [2..<unat c]
     \<and> length (wt_sent t) = unat c
     \<and> length (wt_payload t) = unat c - 2 \<and> wt_ok t
     \<and> length rg' = 32 \<and> unat c \<le> 32
     \<and> (2 \<le> unat c \<longrightarrow>
          wt_sent t = [ucast (drop_bit 8 a), ucast (a AND 0xFF)] @ wt_payload t)"
proof -
  let ?rg = "rg[0 := ucast (drop_bit 8 a), 1 := ucast (a AND 0xFF)]"
  from assms(1) obtain idx where r: "stage_payload 2 (unat c) ?rg pb = Inr (rg', pb', idx)"
    and t: "t = \<lparr>wt_addr = a, wt_cbTrans = c, wt_staged = 0 # 1 # idx,
                 wt_sent = take (unat c) rg', wt_payload = map ((!) rg') idx, wt_ok = True\<rparr>"
    by (auto simp add: I2CHALWrite_stage_def Let_def split: sum.splits)
  from stage_payload_Inr[OF r] assms(2)
  have idx: "idx = [2..<unat c]" and len: "length rg' = 32"
    and keep: "\<forall>i<2. rg' ! i = ?rg ! i" and n: "unat c \<le> 2 \<or> unat c \<le> 32"
    by simp_all
  from n have n32: "unat c \<le> 32" by linarith
  from keep assms(2) have k0: "rg' ! 0 = ucast (drop_bit 8 a)" by simp
  from keep assms(2) have k1: "rg' ! 1 = ucast (a AND 0xFF)"
    by (simp add: numeral_2_eq_2)
  have sent: "wt_sent t = [ucast (drop_bit 8 a), ucast (a AND 0xFF)] @ wt_payload t"
    if "2 \<le> unat c"
  proof -
    have "[0..<unat c] = 0 # 1 # [2..<unat c]"
      using that by (simp add: upt_conv_Cons numeral_2_eq_2)
    moreover have "take (unat c) rg' = map ((!) rg') [0..<unat c]"
      using n32 len by (intro take_as_map_nth) simp
    ultimately show ?thesis using t idx k0 k1 by simp
  qed
  from t idx len n32 sent show ?thesis by simp
qed

lemma stage_fits:
  assumes "length rg = 32" and "unat c \<le> 32"
  shows "\<exists>t rg' pb'. I2CHALWrite_stage a c rg pb = Inr (t, rg', pb')"
proof -
  let ?rg = "rg[0 := ucast (drop_bit 8 a), 1 := ucast (a AND 0xFF)]"
  from assms have "unat c \<le> length ?rg" by simp
  from stage_payload_fits[OF this, of 2 pb]
  obtain x y where "stage_payload 2 (unat c) ?rg pb = Inr (x, y, [2..<unat c])" by blast
  then show ?thesis by (simp add: I2CHALWrite_stage_def Let_def)
qed


lemma uncapped: "word_of_int (2 + (uint (a::BYTE) - uint (b::BYTE))) = 2 + (a - b)"
  by simp

lemma ucast_cap: "uint (ucast (C :: INT32) :: BYTE) = sint C mod 256"
proof -
  have "uint (ucast C :: BYTE) = take_bit 8 (uint C)"
    by (simp add: unsigned_ucast_eq)
  also have "uint C = take_bit 32 (sint C)"
    using uint_sint[of C] by simp
  finally show ?thesis by (simp add: take_bit_eq_mod mod_mod_cancel)
qed

lemma cbTrans_le: "0 \<le> sint C \<Longrightarrow> sint C < 256 \<Longrightarrow> uint (I2CHALWrite_cbTrans a b C) \<le> sint C"
  by (simp add: I2CHALWrite_cbTrans_def Let_def ucast_cap)

text \<open>A pass of the write loop either takes the cap or takes all that is left.\<close>

lemma cbTrans_cases:
  fixes a b :: BYTE and C :: INT32
  shows "(sint C < uint (2 + (a - b)) \<and> I2CHALWrite_cbTrans a b C = ucast C)
   \<or> (\<not> sint C < uint (2 + (a - b)) \<and> I2CHALWrite_cbTrans a b C = 2 + (a - b))"
  by (simp add: I2CHALWrite_cbTrans_def Let_def)


lemma capped_arith:
  fixes a b :: BYTE and C :: INT32
  assumes "b < a" "2 \<le> sint C" "sint C < uint (2 + (a - b))"
  shows "uint (ucast C :: BYTE) = sint C" and "uint (b + (ucast C - 2)) = uint b + (sint C - 2)"
    and "b + (ucast C - 2) < a \<or> b + (ucast C - 2) = a"
proof -
  have "uint (2 + (a - b)) < 2 ^ LENGTH(8)" by (rule uint_lt2p)
  then have "uint (2 + (a - b)) < 256" by simp
  with assms(3) have lt: "sint C < 256" by linarith
  then show c: "uint (ucast C :: BYTE) = sint C" using assms(2) by (simp add: ucast_cap)
  have ab: "uint b < uint a" using assms(1) by (simp add: word_less_alt)
  have "uint (2 + (a - b)) = (2 + (uint a - uint b)) mod 256"
    by (simp add: uint_word_ariths mod_simps)
  also have "\<dots> \<le> 2 + (uint a - uint b)" using ab by (intro zmod_le_nonneg_dividend) simp
  finally have d: "sint C - 2 < uint a - uint b" using assms(3) by simp
  have "uint (b + (ucast C - 2)) = (uint b + (sint C - 2)) mod 256"
    using c by (simp add: uint_word_ariths mod_simps)
  also have "\<dots> = uint b + (sint C - 2)"
    using d assms(2) uint_lt2p[of a] by (intro mod_pos_pos_trivial) simp_all
  finally show e: "uint (b + (ucast C - 2)) = uint b + (sint C - 2)" .
  show "b + (ucast C - 2) < a \<or> b + (ucast C - 2) = a"
    using e d by (simp add: word_less_alt)
qed

lemma cbTrans_normal:
  fixes a b :: BYTE and C :: INT32
  assumes lt: "b < a" and d: "uint a - uint b \<le> 253" and C: "2 \<le> sint C"
  shows "uint (I2CHALWrite_cbTrans a b C) = min (sint C) (2 + (uint a - uint b))"
    and "uint (b + (I2CHALWrite_cbTrans a b C - 2)) = uint b + (uint (I2CHALWrite_cbTrans a b C) - 2)"
proof -
  have ab: "uint b < uint a" using lt by (simp add: word_less_alt)
  have "uint (2 + (a - b)) = (2 + (uint a - uint b)) mod 256"
    by (simp add: uint_word_ariths mod_simps)
  also have "\<dots> = 2 + (uint a - uint b)"
    using ab d by (intro mod_pos_pos_trivial) simp_all
  finally have u0: "uint (2 + (a - b)) = 2 + (uint a - uint b)" .
  from cbTrans_cases[of C a b]
  show "uint (I2CHALWrite_cbTrans a b C) = min (sint C) (2 + (uint a - uint b))"
  proof
    assume h: "sint C < uint (2 + (a - b)) \<and> I2CHALWrite_cbTrans a b C = ucast C"
    with capped_arith(1)[OF lt C] u0 show ?thesis by simp
  next
    assume h: "\<not> sint C < uint (2 + (a - b)) \<and> I2CHALWrite_cbTrans a b C = 2 + (a - b)"
    with u0 show ?thesis by simp
  qed
  from cbTrans_cases[of C a b]
  show "uint (b + (I2CHALWrite_cbTrans a b C - 2)) = uint b + (uint (I2CHALWrite_cbTrans a b C) - 2)"
  proof
    assume h: "sint C < uint (2 + (a - b)) \<and> I2CHALWrite_cbTrans a b C = ucast C"
    with capped_arith(1,2)[OF lt C] show ?thesis by simp
  next
    assume h: "\<not> sint C < uint (2 + (a - b)) \<and> I2CHALWrite_cbTrans a b C = 2 + (a - b)"
    then have "b + (I2CHALWrite_cbTrans a b C - 2) = a" by simp
    with h u0 show ?thesis by simp
  qed
qed

text \<open>
  The transaction fits the staging buffer when the cap is at most 32, and also when no
  more than 30 bytes are to be written.
\<close>

lemma cbTrans_fits:
  fixes a b :: BYTE and C :: INT32
  assumes lt: "b < a" and C: "0 \<le> sint C" and fit: "sint C \<le> 32 \<or> uint a \<le> 30"
  shows "unat (I2CHALWrite_cbTrans a b C) \<le> 32"
proof -
  have ab: "uint b < uint a" using lt by (simp add: word_less_alt)
  have b0: "0 \<le> uint b" by simp
  have "uint (I2CHALWrite_cbTrans a b C) \<le> 32"
  proof (cases "sint C \<le> 32")
    case True
    then have "uint (I2CHALWrite_cbTrans a b C) \<le> sint C"
      using C by (intro cbTrans_le) simp_all
    with True show ?thesis by linarith
  next
    case False
    with fit have a30: "uint a \<le> 30" by simp
    have "uint (2 + (a - b)) = (2 + (uint a - uint b)) mod 256"
      by (simp add: uint_word_ariths mod_simps)
    also have "\<dots> = 2 + (uint a - uint b)"
    proof (rule mod_pos_pos_trivial)
      show "0 \<le> 2 + (uint a - uint b)" using ab by linarith
      show "2 + (uint a - uint b) < 256" using a30 uint_ge_0[of b] by linarith
    qed
    finally have u0: "uint (2 + (a - b)) = 2 + (uint a - uint b)" .
    have d30: "uint a - uint b \<le> 30" using a30 uint_ge_0[of b] by linarith
    with u0 False have "\<not> sint C < uint (2 + (a - b))" by linarith
    with cbTrans_cases[of C a b] have "I2CHALWrite_cbTrans a b C = 2 + (a - b)" by blast
    then have "uint (I2CHALWrite_cbTrans a b C) = 2 + (uint a - uint b)" using u0 by simp
    with d30 show ?thesis by linarith
  qed
  then show ?thesis unfolding unat_eq_nat_uint by linarith
qed

lemma send_accepted_ok:
  assumes "send_accepted pf w"
  shows "\<not> send_failed pf (w (uint c)) c"
proof -
  from assms have "case pf of PLATFORM_LINUX \<Rightarrow> w (uint c) = uint c
                           | PLATFORM_ZYNQ \<Rightarrow> w (uint c) = XST_SUCCESS
                           | PLATFORM_XIIC \<Rightarrow> w (uint c) = uint c"
    unfolding send_accepted_def by blast
  then show ?thesis unfolding send_failed_def by (cases pf) auto
qed


lemma read_complete_ok:
  assumes "read_complete pf r" and "0 < c"
  shows "\<not> addr_phase_failed pf (addr_ret r)" and "\<not> data_phase_failed pf (data_ret r c)"
    and "read_advance pf (data_ret r c) c = c"
  using assms
  unfolding read_complete_def addr_phase_failed_def data_phase_failed_def read_advance_def
  by (cases pf; simp)+


subsection \<open>The write loop\<close>

lemma payload_total_simps [simp]:
  "payload_total [] = 0"
  "payload_total (t # ts) = int (length (wt_payload t)) + payload_total ts"
  "payload_total (ts @ us) = payload_total ts + payload_total us"
  by (simp_all add: payload_total_def)

lemma ceil_step:
  fixes d p :: int
  assumes "0 < d" "0 < p"
  shows "(d + (p - 1)) div p = 1 + (d - min p d + (p - 1)) div p"
proof (cases "d \<le> p")
  case True
  have a: "(d + (p - 1)) div p = 1"
    using assms True by (intro int_div_pos_eq[where r = "d - 1"]) simp_all
  have b: "(p - 1) div p = 0" using assms by simp
  have c: "d - min p d + (p - 1) = p - 1" using True by simp
  show ?thesis unfolding a b c by simp
next
  case False
  then have "d - min p d + (p - 1) = (d - 1)" by (simp add: min_def)
  moreover have "(d + (p - 1)) div p = 1 + (d - 1) div p"
  proof -
    have "d + (p - 1) = (d - 1) + p" by simp
    then show ?thesis using assms by (simp only: div_add_self2)
  qed
  ultimately show ?thesis by simp
qed

text \<open>
  One pass of the write loop that stages within the buffer and is accepted by the bus.
\<close>

lemma write_pass:
  assumes lt: "cbSent < cbWrite" and rg: "length rg = 32"
    and fit: "unat (I2CHALWrite_cbTrans cbWrite cbSent C) \<le> 32"
  obtains txn rg' pb' where
    "I2CHALWrite_stage ad (I2CHALWrite_cbTrans cbWrite cbSent C) rg pb = Inr (txn, rg', pb')"
    "length rg' = 32"
    "wt_cbTrans txn = I2CHALWrite_cbTrans cbWrite cbSent C"
    "length (wt_payload txn) = unat (I2CHALWrite_cbTrans cbWrite cbSent C) - 2"
    "wt_ok txn"
    "send_failed pf (w (uint (I2CHALWrite_cbTrans cbWrite cbSent C))) (I2CHALWrite_cbTrans cbWrite cbSent C)
       \<Longrightarrow> I2CHALWrite_loop pf (w # ws) cbWrite C cbSent ad pb rg
            = \<lparr>wr_ret = Some False, wr_cbSent = cbSent, wr_txns = [txn\<lparr>wt_ok := False\<rparr>],
               wr_fault = None\<rparr>"
    "\<not> send_failed pf (w (uint (I2CHALWrite_cbTrans cbWrite cbSent C))) (I2CHALWrite_cbTrans cbWrite cbSent C)
       \<Longrightarrow> I2CHALWrite_loop pf (w # ws) cbWrite C cbSent ad pb rg
            = (I2CHALWrite_loop pf ws cbWrite C
                 (cbSent + (I2CHALWrite_cbTrans cbWrite cbSent C - 2))
                 (ad + (ucast (I2CHALWrite_cbTrans cbWrite cbSent C) - 2)) pb' rg')
              \<lparr>wr_txns := txn # wr_txns (I2CHALWrite_loop pf ws cbWrite C
                 (cbSent + (I2CHALWrite_cbTrans cbWrite cbSent C - 2))
                 (ad + (ucast (I2CHALWrite_cbTrans cbWrite cbSent C) - 2)) pb' rg')\<rparr>"
proof -
  define c where "c = I2CHALWrite_cbTrans cbWrite cbSent C"
  from stage_fits[OF rg fit[folded c_def], of ad pb]
  obtain txn rg' pb' where st: "I2CHALWrite_stage ad c rg pb = Inr (txn, rg', pb')" by blast
  note tx = stage_txn[OF st rg]
  have f: "I2CHALWrite_loop pf (w # ws) cbWrite C cbSent ad pb rg
            = \<lparr>wr_ret = Some False, wr_cbSent = cbSent, wr_txns = [txn\<lparr>wt_ok := False\<rparr>],
               wr_fault = None\<rparr>"
    if "send_failed pf (w (uint c)) c"
    using lt st that by (simp add: c_def[symmetric])
  have g: "I2CHALWrite_loop pf (w # ws) cbWrite C cbSent ad pb rg
            = (I2CHALWrite_loop pf ws cbWrite C (cbSent + (c - 2)) (ad + (ucast c - 2)) pb' rg')
              \<lparr>wr_txns := txn # wr_txns (I2CHALWrite_loop pf ws cbWrite C (cbSent + (c - 2))
                   (ad + (ucast c - 2)) pb' rg')\<rparr>"
    if "\<not> send_failed pf (w (uint c)) c"
    using lt st that by (simp add: c_def[symmetric] Let_def)
  from tx have l: "length rg' = 32" "wt_cbTrans txn = c" "length (wt_payload txn) = unat c - 2"
    "wt_ok txn"
    by simp_all
  from st l f g show ?thesis unfolding c_def by (rule that[of txn rg' pb'])
qed

lemma write_loop_complete:
  assumes C: "3 \<le> sint C" and fit: "sint C \<le> 32 \<or> uint cbWrite \<le> 30"
  shows "length rg = 32 \<Longrightarrow> cbSent \<le> cbWrite \<Longrightarrow> uint cbWrite - uint cbSent \<le> 253 \<Longrightarrow>
    n = nat ((uint cbWrite - uint cbSent + (sint C - 3)) div (sint C - 2)) \<Longrightarrow>
    n \<le> length rs \<Longrightarrow> \<forall>r \<in> set (take n rs). send_accepted pf r \<Longrightarrow>
    wr_ret (I2CHALWrite_loop pf rs cbWrite C cbSent ad pb rg) = Some True
    \<and> wr_cbSent (I2CHALWrite_loop pf rs cbWrite C cbSent ad pb rg) = cbWrite
    \<and> length (wr_txns (I2CHALWrite_loop pf rs cbWrite C cbSent ad pb rg)) = n
    \<and> list_all wt_ok (wr_txns (I2CHALWrite_loop pf rs cbWrite C cbSent ad pb rg))
    \<and> payload_total (wr_txns (I2CHALWrite_loop pf rs cbWrite C cbSent ad pb rg))
        = uint cbWrite - uint cbSent
    \<and> wr_fault (I2CHALWrite_loop pf rs cbWrite C cbSent ad pb rg) = None"
proof (induction rs arbitrary: cbSent ad pb rg n)
  case Nil
  let ?d = "uint cbWrite - uint cbSent"
  let ?p = "sint C - 2"
  have p: "0 < ?p" using C by simp
  have d0: "0 \<le> ?d" using Nil.prems(2) by (simp add: word_le_def)
  have nn: "?d + (sint C - 3) = ?d + (?p - 1)" by simp
  from Nil.prems(4,5) have "nat ((?d + (sint C - 3)) div ?p) = 0" by simp
  then have "\<not> 0 < (?d + (?p - 1)) div ?p" unfolding nn by simp
  then have "\<not> ?p \<le> ?d + (?p - 1)" using pos_imp_zdiv_pos_iff[OF p] by blast
  then have "?d + (?p - 1) < ?p" by simp
  with d0 have "?d = 0" by simp
  then have "cbSent = cbWrite" by (simp add: word_uint_eq_iff)
  with Nil.prems(4,5) show ?case by simp
next
  case (Cons r rs)
  let ?d = "uint cbWrite - uint cbSent"
  let ?p = "sint C - 2"
  have p: "0 < ?p" using C by simp
  have C2: "2 \<le> sint C" using C by simp
  have C0: "0 \<le> sint C" using C by simp
  have d0: "0 \<le> ?d" using Cons.prems(2) by (simp add: word_le_def)
  have nn: "?d + (sint C - 3) = ?d + (?p - 1)" by simp
  show ?case
  proof (cases "cbSent < cbWrite")
    case False
    with Cons.prems(2) have e: "cbSent = cbWrite" by simp
    then have "(?d + (sint C - 3)) div ?p = 0" using C by simp
    with Cons.prems(4) e show ?thesis by simp
  next
    case lt: True
    then have dpos: "0 < ?d" by (simp add: word_less_alt)
    define c where "c = I2CHALWrite_cbTrans cbWrite cbSent C"
    note cn = cbTrans_normal[OF lt Cons.prems(3) C2, folded c_def]
    have uc: "uint c = 2 + min ?p ?d" using cn(1) by (simp add: min_def)
    have step: "(?d + (?p - 1)) div ?p = 1 + (?d - min ?p ?d + (?p - 1)) div ?p"
      by (rule ceil_step[OF dpos p])
    have rest0: "0 \<le> (?d - min ?p ?d + (?p - 1)) div ?p"
      using p by (intro pos_imp_zdiv_nonneg_iff[THEN iffD2]) (simp_all add: min_def)
    define n' where "n' = nat ((?d - min ?p ?d + (?p - 1)) div ?p)"
    have n: "n = Suc n'"
      using Cons.prems(4) step rest0 unfolding nn n'_def by (simp add: nat_add_distrib)
    from Cons.prems(6) n have acc: "send_accepted pf r" and acc': "\<forall>r \<in> set (take n' rs). send_accepted pf r"
      by simp_all
    from acc have ok: "\<not> send_failed pf (r (uint c)) c" by (rule send_accepted_ok)
    from write_pass[OF lt Cons.prems(1) cbTrans_fits[OF lt C0 fit], of ad pb pf r rs]
    obtain txn rg' pb' where rg': "length rg' = 32"
      and pl0: "length (wt_payload txn) = unat c - 2" and tok: "wt_ok txn"
      and unfold: "I2CHALWrite_loop pf (r # rs) cbWrite C cbSent ad pb rg
            = (I2CHALWrite_loop pf rs cbWrite C (cbSent + (c - 2)) (ad + (ucast c - 2)) pb' rg')
              \<lparr>wr_txns := txn # wr_txns (I2CHALWrite_loop pf rs cbWrite C (cbSent + (c - 2))
                   (ad + (ucast c - 2)) pb' rg')\<rparr>"
      using ok unfolding c_def by blast
    let ?s' = "cbSent + (c - 2)"
    have us': "uint ?s' = uint cbSent + min ?p ?d" using cn(2) uc by simp
    then have le': "?s' \<le> cbWrite" by (simp add: word_le_def min_def)
    have d': "uint cbWrite - uint ?s' = ?d - min ?p ?d" using us' by simp
    have d'253: "uint cbWrite - uint ?s' \<le> 253" unfolding d' using Cons.prems(3) p dpos by linarith
    have n'eq: "n' = nat ((uint cbWrite - uint ?s' + (sint C - 3)) div (sint C - 2))"
      unfolding n'_def d' by (simp add: algebra_simps)
    have len: "n' \<le> length rs" using Cons.prems(5) n by simp
    note ih = Cons.IH[OF rg' le' d'253 n'eq len acc', of "ad + (ucast c - 2)" pb']
    have pl: "int (length (wt_payload txn)) = min ?p ?d"
      using pl0 uc p dpos by (simp add: unat_eq_nat_uint min_def)
    from ih tok pl d' n show ?thesis unfolding unfold by simp
  qed
qed


subsection \<open>Transactions of a write\<close>

text \<open>
  Whatever the cap and the bus, a transaction that was sent was staged within the
  buffer: where the staging loop leaves the buffer the run ends before anything is sent.
\<close>

lemma write_loop_txn:
  "length rg = 32 \<Longrightarrow>
   t \<in> set (wr_txns (I2CHALWrite_loop pf rs cbWrite C cbSent ad pb rg)) \<Longrightarrow>
     \<exists>s. s < cbWrite \<and> wt_cbTrans t = I2CHALWrite_cbTrans cbWrite s C
       \<and> wt_staged t = 0 # 1 # [2..<unat (wt_cbTrans t)]
       \<and> unat (wt_cbTrans t) \<le> 32
       \<and> length (wt_sent t) = unat (wt_cbTrans t)
       \<and> length (wt_payload t) = unat (wt_cbTrans t) - 2
       \<and> (2 \<le> unat (wt_cbTrans t) \<longrightarrow>
            wt_sent t = [ucast (drop_bit 8 (wt_addr t)), ucast (wt_addr t AND 0xFF)] @ wt_payload t)"
proof (induction rs arbitrary: cbSent ad pb rg)
  case Nil
  then show ?case by (simp add: Let_def split: if_splits sum.splits)
next
  case (Cons r rs)
  show ?case
  proof (cases "cbSent < cbWrite")
    case False
    with Cons.prems show ?thesis by simp
  next
    case lt: True
    define c where "c = I2CHALWrite_cbTrans cbWrite cbSent C"
    show ?thesis
    proof (cases "I2CHALWrite_stage ad c rg pb")
      case (Inl f)
      with Cons.prems lt show ?thesis by (simp add: c_def[symmetric])
    next
      case (Inr x)
      then obtain txn rg' pb' where st: "I2CHALWrite_stage ad c rg pb = Inr (txn, rg', pb')"
        by (cases x) auto
      note tx = stage_txn[OF st Cons.prems(1)]
      have here: "?thesis" if "t = txn \<or> t = txn\<lparr>wt_ok := False\<rparr>"
        using that tx lt unfolding c_def by (intro exI[of _ cbSent]) auto
      show ?thesis
      proof (cases "send_failed pf (r (uint c)) c")
        case True
        with Cons.prems lt st have "t = txn\<lparr>wt_ok := False\<rparr>"
          by (simp add: c_def[symmetric])
        then show ?thesis using here by simp
      next
        case ok: False
        let ?res' = "I2CHALWrite_loop pf rs cbWrite C (cbSent + (c - 2)) (ad + (ucast c - 2)) pb' rg'"
        have unfold: "I2CHALWrite_loop pf (r # rs) cbWrite C cbSent ad pb rg
                       = ?res'\<lparr>wr_txns := txn # wr_txns ?res'\<rparr>"
          using lt st ok by (simp add: c_def[symmetric] Let_def)
        from Cons.prems(2) have "t = txn \<or> t \<in> set (wr_txns ?res')" unfolding unfold by simp
        then show ?thesis
        proof
          assume "t = txn" then show ?thesis using here by simp
        next
          from tx have rg': "length rg' = 32" by simp
          assume "t \<in> set (wr_txns ?res')"
          with rg' show ?thesis by (rule Cons.IH)
        qed
      qed
    qed
  qed
qed




subsection \<open>The read loop\<close>

lemma cb_total_simps [simp]:
  "cb_total [] = 0"
  "cb_total (t # ts) = rt_cb t + cb_total ts"
  "cb_total (ts @ us) = cb_total ts + cb_total us"
  by (simp_all add: cb_total_def)

lemma read_loop_done:
  "\<not> cbRecv < cbRead \<Longrightarrow> I2CHALRead_loop pf rs cbRead cbRecv ad pb =
     \<lparr>rd_ret = Some True, rd_cbRecv = cbRecv, rd_pbRead = pb, rd_txns = []\<rparr>"
  by (cases rs) simp_all

lemma byte_advance:
  fixes a b :: BYTE
  assumes "0 \<le> n" "uint b + n \<le> uint a"
  shows "uint (b + word_of_int n) = uint b + n"
proof -
  have "uint a < 2 ^ LENGTH(8)" by (rule uint_lt2p)
  then have a: "uint a < 256" by simp
  have "uint (b + word_of_int n) = (uint b + n) mod 256"
    by (simp add: uint_word_ariths uint_word_of_int mod_simps)
  also have "\<dots> = uint b + n" using assms a by (intro mod_pos_pos_trivial) simp_all
  finally show ?thesis .
qed

lemma read_loop_complete:
  "cbRecv \<le> cbRead \<Longrightarrow>
    n = nat ((uint cbRead - uint cbRecv + 31) div 32) \<Longrightarrow>
    n \<le> length rs \<Longrightarrow> \<forall>r \<in> set (take n rs). read_complete pf r \<Longrightarrow>
    rd_ret (I2CHALRead_loop pf rs cbRead cbRecv ad pb) = Some True
    \<and> rd_cbRecv (I2CHALRead_loop pf rs cbRead cbRecv ad pb) = cbRead
    \<and> length (rd_txns (I2CHALRead_loop pf rs cbRead cbRecv ad pb)) = n
    \<and> list_all rt_ok (rd_txns (I2CHALRead_loop pf rs cbRead cbRecv ad pb))
    \<and> cb_total (rd_txns (I2CHALRead_loop pf rs cbRead cbRecv ad pb))
        = uint cbRead - uint cbRecv"
proof (induction rs arbitrary: cbRecv ad pb n)
  case Nil
  let ?d = "uint cbRead - uint cbRecv"
  have d0: "0 \<le> ?d" using Nil.prems(1) by (simp add: word_le_def)
  from Nil.prems(2,3) have "nat ((?d + 31) div 32) = 0" by simp
  with d0 have "?d = 0" by simp
  then have "cbRecv = cbRead" by (simp add: word_uint_eq_iff)
  with Nil.prems(2,3) show ?case by simp
next
  case (Cons r rs)
  let ?d = "uint cbRead - uint cbRecv"
  have d0: "0 \<le> ?d" using Cons.prems(1) by (simp add: word_le_def)
  show ?case
  proof (cases "cbRecv < cbRead")
    case False
    with Cons.prems(1) have e: "cbRecv = cbRead" by simp
    with Cons.prems(2) show ?thesis by simp
  next
    case lt: True
    then have dpos: "0 < ?d" by (simp add: word_less_alt)
    define c where "c = (if 32 < ?d then 32 else ?d)"
    have c: "0 < c" "c \<le> ?d" "c = min 32 ?d" using dpos by (simp_all add: c_def)
    have step: "(?d + (32 - 1)) div 32 = 1 + (?d - min 32 ?d + (32 - 1)) div 32"
      by (rule ceil_step[OF dpos]) simp
    define n' where "n' = nat ((?d - c + 31) div 32)"
    have n: "n = Suc n'"
      using Cons.prems(2) step c unfolding n'_def by (simp add: nat_add_distrib)
    from Cons.prems(4) n have acc: "read_complete pf r"
      and acc': "\<forall>r \<in> set (take n' rs). read_complete pf r"
      by simp_all
    note ok = read_complete_ok[OF acc c(1)]
    let ?t = "\<lparr>rt_rgbSnd = [ucast (drop_bit 8 ad), ucast (ad AND 0xFF)], rt_cbTrans = c,
               rt_ok = True, rt_cb = c\<rparr>"
    let ?s' = "cbRecv + word_of_int c"
    let ?res' = "I2CHALRead_loop pf rs cbRead ?s' (ad + word_of_int c)
                   (store_bytes pb (unat cbRecv) (read_stored pf (data_ret r c) c) (data_in r))"
    have unfold: "I2CHALRead_loop pf (r # rs) cbRead cbRecv ad pb
                   = ?res'\<lparr>rd_txns := ?t # rd_txns ?res'\<rparr>"
      using lt ok by (simp add: c_def[symmetric] Let_def)
    have adv: "uint ?s' = uint cbRecv + c"
      using c by (intro byte_advance[of c cbRecv cbRead]) simp_all
    then have le': "?s' \<le> cbRead" using c by (simp add: word_le_def)
    have n'eq: "n' = nat ((uint cbRead - uint ?s' + 31) div 32)"
      unfolding n'_def adv by (simp add: algebra_simps)
    have len: "n' \<le> length rs" using Cons.prems(3) n by simp
    note ih = Cons.IH[OF le' n'eq len acc', of "ad + word_of_int c"
        "store_bytes pb (unat cbRecv) (read_stored pf (data_ret r c) c) (data_in r)"]
    from ih adv n show ?thesis unfolding unfold by simp
  qed
qed


lemma uint_up: "uint (ucast (b :: BYTE) :: WORD) = uint b"
  by (simp add: uint_up_ucast is_up)

subsection \<open>The functions as called\<close>

lemma hal_read_unfold:
  assumes "\<not> (pf = PLATFORM_LINUX \<and> io < 0)"
  shows "I2CHALRead pf io rs ad pb cbRead pcb =
      \<lparr>hr_ret = rd_ret (I2CHALRead_loop pf rs cbRead 0 ad pb),
       hr_pcbRead = (if rd_ret (I2CHALRead_loop pf rs cbRead 0 ad pb) = None then pcb
                     else map_option (\<lambda>_. ucast (rd_cbRecv (I2CHALRead_loop pf rs cbRead 0 ad pb))) pcb),
       hr_pbRead = rd_pbRead (I2CHALRead_loop pf rs cbRead 0 ad pb),
       hr_txns = rd_txns (I2CHALRead_loop pf rs cbRead 0 ad pb)\<rparr>"
  using assms by (cases "pf = PLATFORM_LINUX") (simp_all add: I2CHALRead_def Let_def)

lemma hal_write_unfold:
  assumes "\<not> (pf = PLATFORM_LINUX \<and> io < 0)"
  shows "I2CHALWrite pf io ws ad pb cbWrite C pcb =
      \<lparr>hw_ret = wr_ret (I2CHALWrite_loop pf ws cbWrite C 0 ad pb (replicate 32 0)),
       hw_pcbWritten =
         (if wr_ret (I2CHALWrite_loop pf ws cbWrite C 0 ad pb (replicate 32 0)) = None then pcb
          else map_option (\<lambda>_. ucast (wr_cbSent (I2CHALWrite_loop pf ws cbWrite C 0 ad pb (replicate 32 0)))) pcb),
       hw_txns = wr_txns (I2CHALWrite_loop pf ws cbWrite C 0 ad pb (replicate 32 0)),
       hw_fault = wr_fault (I2CHALWrite_loop pf ws cbWrite C 0 ad pb (replicate 32 0))\<rparr>"
  using assms by (cases "pf = PLATFORM_LINUX") (simp_all add: I2CHALWrite_def Let_def)

lemma rgbSnd_length: "length (replicate 32 (0 :: BYTE)) = 32"
  by simp

lemma hal_read_complete:
  assumes io: "\<not> (pf = PLATFORM_LINUX \<and> io < 0)"
    and len: "nat ((uint cbRead + 31) div 32) \<le> length rs"
    and acc: "\<forall>r \<in> set (take (nat ((uint cbRead + 31) div 32)) rs). read_complete pf r"
  shows "hr_ret (I2CHALRead pf io rs ad pb cbRead pcb) = Some True
     \<and> length (hr_txns (I2CHALRead pf io rs ad pb cbRead pcb)) = nat ((uint cbRead + 31) div 32)
     \<and> list_all rt_ok (hr_txns (I2CHALRead pf io rs ad pb cbRead pcb))
     \<and> cb_total (hr_txns (I2CHALRead pf io rs ad pb cbRead pcb)) = uint cbRead
     \<and> hr_pcbRead (I2CHALRead pf io rs ad pb cbRead pcb) = map_option (\<lambda>_. ucast cbRead) pcb"
proof -
  from read_loop_complete[of 0 cbRead "nat ((uint cbRead + 31) div 32)" rs pf ad pb] len acc
  show ?thesis unfolding hal_read_unfold[OF io] by simp
qed

lemma hal_write_complete:
  assumes io: "\<not> (pf = PLATFORM_LINUX \<and> io < 0)"
    and C: "3 \<le> sint C" and fit: "sint C \<le> 32 \<or> uint cbWrite \<le> 30"
    and L: "uint cbWrite \<le> 253"
    and len: "nat ((uint cbWrite + (sint C - 3)) div (sint C - 2)) \<le> length ws"
    and acc: "\<forall>w \<in> set (take (nat ((uint cbWrite + (sint C - 3)) div (sint C - 2))) ws). send_accepted pf w"
  shows "hw_ret (I2CHALWrite pf io ws ad pb cbWrite C pcb) = Some True
     \<and> length (hw_txns (I2CHALWrite pf io ws ad pb cbWrite C pcb))
          = nat ((uint cbWrite + (sint C - 3)) div (sint C - 2))
     \<and> list_all wt_ok (hw_txns (I2CHALWrite pf io ws ad pb cbWrite C pcb))
     \<and> payload_total (hw_txns (I2CHALWrite pf io ws ad pb cbWrite C pcb)) = uint cbWrite
     \<and> hw_pcbWritten (I2CHALWrite pf io ws ad pb cbWrite C pcb) = map_option (\<lambda>_. ucast cbWrite) pcb
     \<and> hw_fault (I2CHALWrite pf io ws ad pb cbWrite C pcb) = None"
proof -
  from write_loop_complete[OF C fit rgbSnd_length, of 0
      "nat ((uint cbWrite + (sint C - 3)) div (sint C - 2))" ws pf ad pb]
    L len acc
  show ?thesis unfolding hal_write_unfold[OF io] by simp
qed



subsection \<open>Facts about the two callers and the example scripts\<close>

lemma sint6: "sint (6 :: INT32) = 6" by simp

lemma sint34: "sint (34 :: INT32) = 34" by simp

lemma hal_write_txns:
  "hw_txns (I2CHALWrite pf io ws a p L C pcb) =
     (if pf = PLATFORM_LINUX \<and> 0 > io then []
      else wr_txns (I2CHALWrite_loop pf ws L C 0 a p (replicate 32 0)))"
  by (simp add: I2CHALWrite_def Let_def)

lemma hal_write_mem:
  "t \<in> set (hw_txns (I2CHALWrite pf io ws a p L C pcb)) \<Longrightarrow>
     t \<in> set (wr_txns (I2CHALWrite_loop pf ws L C 0 a p (replicate 32 0)))"
  unfolding hal_write_txns by (simp split: if_splits)







lemma pmcu_cbTrans_le:
  assumes "wt_cbTrans t = I2CHALWrite_cbTrans cbWrite s 6"
  shows "unat (wt_cbTrans t) \<le> 6"
proof -
  have "uint (I2CHALWrite_cbTrans cbWrite s 6) \<le> sint (6 :: INT32)"
    by (rule cbTrans_le) simp_all
  then have "uint (wt_cbTrans t) \<le> 6" unfolding assms sint6 .
  then show ?thesis unfolding unat_eq_nat_uint by linarith
qed

lemma pmcu_cbTrans_ge:
  assumes s: "s < cbWrite" "wt_cbTrans t = I2CHALWrite_cbTrans cbWrite s 6"
    and L: "uint cbWrite \<le> 253"
  shows "2 \<le> unat (wt_cbTrans t)"
proof -
  have s0: "0 \<le> uint s" by simp
  have sl: "uint s < uint cbWrite" using s(1) by (simp add: word_less_alt)
  have d: "uint cbWrite - uint s \<le> 253" using L s0 by linarith
  have "2 \<le> sint (6 :: INT32)" by simp
  from cbTrans_normal(1)[OF s(1) d this]
  have "uint (wt_cbTrans t) = min 6 (2 + (uint cbWrite - uint s))"
    unfolding s(2) sint6 .
  with sl have "2 \<le> uint (wt_cbTrans t)" by simp
  then show "2 \<le> unat (wt_cbTrans t)" unfolding unat_eq_nat_uint by linarith
qed

text \<open>
  Every transaction \<open>PmcuI2cWrite\<close> sends has at most 6 bytes, so at most 4 bytes of
  payload; for a length of at most 253 it is the two address bytes, high byte first,
  followed by the payload.
\<close>

lemma pmcu_write_transactions:
  assumes "t \<in> set (hw_txns (PmcuI2cWrite pf io ws addrWrite pbWrite cbWrite pcbWritten))"
  shows "length (wt_sent t) \<le> 6 \<and> length (wt_payload t) \<le> 4
     \<and> (uint cbWrite \<le> 253 \<longrightarrow>
          wt_sent t = [ucast (drop_bit 8 (wt_addr t)), ucast (wt_addr t AND 0xFF)] @ wt_payload t)"
proof -
  from assms
  have "t \<in> set (hw_txns (I2CHALWrite pf io ws addrWrite pbWrite cbWrite 6 pcbWritten))"
    unfolding PmcuI2cWrite_def PlatformMCU_cbPmcuRxMax_def .
  then have "t \<in> set (wr_txns (I2CHALWrite_loop pf ws cbWrite 6 0 addrWrite pbWrite (replicate 32 0)))"
    by (rule hal_write_mem)
  from write_loop_txn[OF rgbSnd_length this]
  obtain s where s: "s < cbWrite" "wt_cbTrans t = I2CHALWrite_cbTrans cbWrite s 6"
    and len: "length (wt_sent t) = unat (wt_cbTrans t)"
      "length (wt_payload t) = unat (wt_cbTrans t) - 2"
    and pre: "2 \<le> unat (wt_cbTrans t) \<longrightarrow>
       wt_sent t = [ucast (drop_bit 8 (wt_addr t)), ucast (wt_addr t AND 0xFF)] @ wt_payload t"
    by blast
  note le = pmcu_cbTrans_le[OF s(2)]
  have a: "length (wt_sent t) \<le> 6" using le len(1) by simp
  have b: "length (wt_payload t) \<le> 4" using le len(2) by simp
  have c: "uint cbWrite \<le> 253 \<longrightarrow>
          wt_sent t = [ucast (drop_bit 8 (wt_addr t)), ucast (wt_addr t AND 0xFF)] @ wt_payload t"
    using pmcu_cbTrans_ge[OF s] pre by blast
  from a b c show ?thesis by blast
qed

lemma full_read_reply_complete: "read_complete PLATFORM_LINUX full_read_reply"
  by (simp add: read_complete_def full_read_reply_def)



lemma id_accepted: "send_accepted PLATFORM_LINUX id"
  by (simp add: send_accepted_def)


subsection \<open>The SYZYGY callers keep the low byte of the length\<close>

text \<open>
  \<^verbatim>\<open>SyzygyI2cRead\<close> and \<^verbatim>\<open>SyzygyI2cWrite\<close> take a \<^verbatim>\<open>WORD\<close> length and hand it on as
  a \<^verbatim>\<open>BYTE\<close>. On a bus where every transaction transfers in full, a read moves and
  reports the length modulo 256, and so does a write whose length modulo 256 is at most
  30, for which the transaction fits the staging buffer.
\<close>

lemma ucast_low_byte: "uint (ucast (n :: WORD) :: BYTE) = uint n mod 256"
  by (simp add: unsigned_ucast_eq take_bit_eq_mod)

lemma syzygy_read_low_byte:
  assumes io: "\<not> (pf = PLATFORM_LINUX \<and> io < 0)"
    and len: "nat ((uint n mod 256 + 31) div 32) \<le> length rs"
    and acc: "\<forall>r \<in> set (take (nat ((uint n mod 256 + 31) div 32)) rs). read_complete pf r"
  shows "hr_ret (SyzygyI2cRead pf io rs ad pb n pcb) = Some True
     \<and> length (hr_txns (SyzygyI2cRead pf io rs ad pb n pcb)) = nat ((uint n mod 256 + 31) div 32)
     \<and> cb_total (hr_txns (SyzygyI2cRead pf io rs ad pb n pcb)) = uint n mod 256
     \<and> map_option uint (hr_pcbRead (SyzygyI2cRead pf io rs ad pb n pcb))
          = map_option (\<lambda>_. uint n mod 256) pcb"
proof -
  from len acc
  have len': "nat ((uint (ucast n :: BYTE) + 31) div 32) \<le> length rs"
    and acc': "\<forall>r \<in> set (take (nat ((uint (ucast n :: BYTE) + 31) div 32)) rs). read_complete pf r"
    unfolding ucast_low_byte by simp_all
  from hal_read_complete[OF io len' acc', of ad pb pcb]
  show ?thesis unfolding SyzygyI2cRead_def ucast_low_byte
    by (simp add: option.map_comp comp_def uint_up ucast_low_byte)
qed

lemma syzygy_write_low_byte:
  assumes io: "\<not> (pf = PLATFORM_LINUX \<and> io < 0)"
    and L: "uint n mod 256 \<le> 30"
    and len: "nat ((uint n mod 256 + 31) div 32) \<le> length ws"
    and acc: "\<forall>w \<in> set (take (nat ((uint n mod 256 + 31) div 32)) ws). send_accepted pf w"
  shows "hw_ret (SyzygyI2cWrite pf io ws ad pb n pcb) = Some True
     \<and> length (hw_txns (SyzygyI2cWrite pf io ws ad pb n pcb)) = nat ((uint n mod 256 + 31) div 32)
     \<and> payload_total (hw_txns (SyzygyI2cWrite pf io ws ad pb n pcb)) = uint n mod 256
     \<and> map_option uint (hw_pcbWritten (SyzygyI2cWrite pf io ws ad pb n pcb))
          = map_option (\<lambda>_. uint n mod 256) pcb"
proof -
  have C: "3 \<le> sint (34 :: INT32)" by simp
  have L30: "uint (ucast n :: BYTE) \<le> 30" using L unfolding ucast_low_byte .
  then have L': "uint (ucast n :: BYTE) \<le> 253" by simp
  have fit: "sint (34 :: INT32) \<le> 32 \<or> uint (ucast n :: BYTE) \<le> 30" using L30 by simp
  have e: "(uint (ucast n :: BYTE) + (sint (34 :: INT32) - 3)) div (sint (34 :: INT32) - 2)
            = (uint n mod 256 + 31) div 32"
    unfolding ucast_low_byte sint34 by simp
  from len acc
  have len': "nat ((uint (ucast n :: BYTE) + (sint (34 :: INT32) - 3)) div (sint (34 :: INT32) - 2))
                \<le> length ws"
    and acc': "\<forall>w \<in> set (take (nat ((uint (ucast n :: BYTE) + (sint (34 :: INT32) - 3))
                div (sint (34 :: INT32) - 2))) ws). send_accepted pf w"
    unfolding e by simp_all
  from hal_write_complete[OF io C fit L' len' acc', of ad pb pcb]
  show ?thesis unfolding SyzygyI2cWrite_def syzygy_cbPmcuRxMax_def e
    by (simp add: option.map_comp comp_def uint_up ucast_low_byte)
qed

section \<open>Identification: theorems\<close>

text \<open>
  Claim C7. The PDID \<open>0x80100200\<close> decodes to the ADC family: bits 31:20 equal the ADC
  product code, so \<open>FZmodIsADC\<close> holds; \<open>FGetZmodADCVariant\<close> returns true with the
  variant \<open>ZMOD_ADC_VARIANT_1410_105\<close>, bits 19:8 being \<open>0x002\<close>; and
  \<open>FGetZmodADCResolution\<close> on that variant returns true and stores 14, whatever the
  output variable held before.
\<close>

theorem C7_pdid_80100200_decodes:
  "FZmodIsADC 0x80100200
   \<and> (drop_bit 20 (0x80100200 :: DWORD) AND 0xfff) = prodZmodADC
   \<and> (drop_bit 8 (0x80100200 :: DWORD) AND 0xfff) = 0x002
   \<and> FGetZmodADCVariant 0x80100200 = (True, ZMOD_ADC_VARIANT_1410_105)
   \<and> FGetZmodADCResolution (snd (FGetZmodADCVariant 0x80100200)) res = (True, 14)"
  by (simp add: FZmodIsADC_def prodZmodADC_def FGetZmodADCVariant_def)

text \<open>
  Claim C10. The ADC and Digitizer product codes are both \<open>0x801\<close>, so \<open>FZmodIsADC\<close>
  and \<open>FZmodIsDigitizer\<close> agree on every PDID. Hence \<open>FGetZmodFamily\<close>, which tests
  ADC first, never stores \<open>ZMOD_FAMILY_DIGITIZER\<close>: a PDID that \<open>FZmodIsDigitizer\<close>
  accepts is classified as \<open>ZMOD_FAMILY_ADC\<close>. It returns true for every PDID;
  a PDID of no supported family is reported as \<open>ZMOD_FAMILY_UNSUPPORTED\<close> through
  the output parameter, still with return value true. All of this holds whatever
  \<open>FZmodIsDAC\<close> computes.
\<close>

theorem C10_digitizer_shadowed_by_adc:
  "prodZmodADC = 0x801 \<and> prodZmodDigitizer = 0x801
   \<and> FZmodIsADC Pdid = FZmodIsDigitizer Pdid
   \<and> snd (FGetZmodFamily isDAC Pdid) \<noteq> ZMOD_FAMILY_DIGITIZER
   \<and> (FZmodIsDigitizer Pdid \<longrightarrow> FGetZmodFamily isDAC Pdid = (True, ZMOD_FAMILY_ADC))
   \<and> fst (FGetZmodFamily isDAC Pdid)
   \<and> (\<not> FZmodIsADC Pdid \<and> \<not> isDAC Pdid \<and> \<not> FZmodIsDigitizer Pdid \<longrightarrow>
        FGetZmodFamily isDAC Pdid = (True, ZMOD_FAMILY_UNSUPPORTED))"
  by (simp add: FGetZmodFamily_def FZmodIsADC_def FZmodIsDigitizer_def
      prodZmodADC_def prodZmodDigitizer_def)

theorem C10_digitizer_shadowed_by_adc_witness:
  "FZmodIsDigitizer 0x80106100
   \<and> FGetZmodFamily (\<lambda>Pdid. (drop_bit 20 Pdid AND 0xfff) = prodZmodDAC) 0x80106100
       = (True, ZMOD_FAMILY_ADC)
   \<and> \<not> FZmodIsADC 0x12300000
   \<and> \<not> (drop_bit 20 (0x12300000 :: DWORD) AND 0xfff) = prodZmodDAC
   \<and> \<not> FZmodIsDigitizer 0x12300000
   \<and> FGetZmodFamily (\<lambda>Pdid. (drop_bit 20 Pdid AND 0xfff) = prodZmodDAC) 0x12300000
       = (True, ZMOD_FAMILY_UNSUPPORTED)"
proof -
  have d: "FZmodIsDigitizer 0x80106100"
    by (simp add: FZmodIsDigitizer_def prodZmodDigitizer_def)
  have a: "\<not> FZmodIsADC 0x12300000"
    by (simp add: FZmodIsADC_def prodZmodADC_def)
  have g: "\<not> FZmodIsDigitizer 0x12300000"
    by (simp add: FZmodIsDigitizer_def prodZmodDigitizer_def)
  have c: "\<not> (drop_bit 20 (0x12300000 :: DWORD) AND 0xfff) = prodZmodDAC"
    by (simp add: prodZmodDAC_def)
  from d a g c
    C10_digitizer_shadowed_by_adc
      [of "0x80106100" "\<lambda>Pdid. (drop_bit 20 Pdid AND 0xfff) = prodZmodDAC"]
    C10_digitizer_shadowed_by_adc
      [of "0x12300000" "\<lambda>Pdid. (drop_bit 20 Pdid AND 0xfff) = prodZmodDAC"]
  show ?thesis by blast
qed

section \<open>Digitizer frequency steps: theorems\<close>

text \<open>
  The literal \<^verbatim>\<open>122.88f\<close>: \<open>16106127\<close> is a significand of 24 bits, and
  \<open>16106127 / 2 ^ 17\<close> is nearer to 122.88 than half the distance \<open>1 / 2 ^ 17\<close> between
  neighbouring binary32 numbers, so it is the binary32 number nearest to 122.88. It
  is below 122.88.
\<close>

lemma literal_122_88f:
  "(2 :: real) ^ 23 \<le> 16106127 \<and> (16106127 :: real) < 2 ^ 24
   \<and> \<bar>(122.88 :: real) - 16106127 / 2 ^ 17\<bar> < (1 / 2 ^ 17) / 2
   \<and> (16106127 :: real) / 2 ^ 17 < 122.88"
  by (simp add: abs_if)

text \<open>
  Claim C6, as it is stated, at the byte 0. The value returned for 0 is the \<^verbatim>\<open>float\<close>
  \<^verbatim>\<open>122.88f\<close>, which is \<open>16106127 / 2 ^ 17 = 122.87999725341796875\<close> and not 122.88:
  the test \<^verbatim>\<open>FZmodDigitizerGetFrequencyStepMHz(0) == 122.88\<close> is false.
\<close>

theorem C6_byte_0_is_not_122_88_counterexample:
  "FZmodDigitizerGetFrequencyStepMHz 0 = 16106127 / 2 ^ 17
   \<and> FZmodDigitizerGetFrequencyStepMHz 0 \<noteq> 122.88"
  by (simp add: FZmodDigitizerGetFrequencyStepMHz_def)

text \<open>
  Claim C6, amended. \<open>FZmodDigitizerGetFrequencyStepMHz\<close> maps the byte value 0 to the
  single-precision number nearest to 122.88, which is \<open>16106127 / 2 ^ 17\<close> and differs
  from 122.88 by less than \<open>1 / 2 ^ 18\<close>; it maps 50, 80, 100, 110, 120, 125 to exactly
  50, 80, 100, 110, 120, 125, and every other byte value to 0; the function is total, no
  input is an error. In particular 125 gives 125 and 99 gives 0.
\<close>

theorem C6_frequency_step_table:
  "FZmodDigitizerGetFrequencyStepMHz 0 = 16106127 / 2 ^ 17
   \<and> \<bar>FZmodDigitizerGetFrequencyStepMHz 0 - 122.88\<bar> < 1 / 2 ^ 18
   \<and> FZmodDigitizerGetFrequencyStepMHz 50 = 50
   \<and> FZmodDigitizerGetFrequencyStepMHz 80 = 80
   \<and> FZmodDigitizerGetFrequencyStepMHz 100 = 100
   \<and> FZmodDigitizerGetFrequencyStepMHz 110 = 110
   \<and> FZmodDigitizerGetFrequencyStepMHz 120 = 120
   \<and> FZmodDigitizerGetFrequencyStepMHz 125 = 125
   \<and> (hz \<notin> {0, 50, 80, 100, 110, 120, 125} \<longrightarrow>
        FZmodDigitizerGetFrequencyStepMHz hz = 0)
   \<and> FZmodDigitizerGetFrequencyStepMHz 99 = 0"
  by (simp add: FZmodDigitizerGetFrequencyStepMHz_def abs_if)

theorem C6_frequency_step_table_witness:
  "(7 :: BYTE) \<notin> {0, 50, 80, 100, 110, 120, 125}
   \<and> FZmodDigitizerGetFrequencyStepMHz 7 = 0"
  using C6_frequency_step_table [of 7] by simp

section \<open>SYZYGY DNA header CRC: theorems\<close>

text \<open>
  Claim C4. \<open>SyzygyComputeCRC\<close> computes the CCITT-style CRC-16 with polynomial 0x1021
  and initial value 0xFFFF, without a final XOR: its update for one byte is the
  bitwise polynomial division of that byte into the register (first conjunct), so over a
  whole buffer it returns the bitwise CRC started at 0xFFFF (second conjunct; the length
  parameter is a byte, so the buffer has at most 255 bytes). And a buffer made of header
  bytes followed by the high byte and then the low byte of the CRC the routine returns
  for those header bytes has CRC zero (third conjunct).
\<close>

theorem C4_crc16_ccitt_and_appended_crc:
  "SyzygyComputeCRC_step crc b = crc16_ccitt_byte crc b
   \<and> (length buf \<le> 255 \<longrightarrow>
        SyzygyComputeCRC buf (word_of_nat (length buf)) = Some (crc16_ccitt buf))
   \<and> (length hdr + 2 \<le> 255 \<and> SyzygyComputeCRC hdr (word_of_nat (length hdr)) = Some c \<longrightarrow>
        SyzygyComputeCRC (hdr @ [ucast (drop_bit 8 c), ucast c]) (word_of_nat (length hdr + 2))
          = Some 0)"
  using crc_step_is_ccitt[of crc b] crc_whole_buffer[of buf] crc_appended_is_zero[of hdr c]
  by blast

theorem C4_crc16_ccitt_and_appended_crc_witness:
  "length [0x12, 0x34, 0x56 :: BYTE] + 2 \<le> 255
   \<and> SyzygyComputeCRC [0x12, 0x34, 0x56] 3 = Some 0x12FD
   \<and> crc16_ccitt [0x12, 0x34, 0x56] = 0x12FD
   \<and> SyzygyComputeCRC [0x12, 0x34, 0x56, 0x12, 0xFD] 5 = Some 0"
proof -
  have e: "SyzygyComputeCRC [0x12, 0x34, 0x56] 3 = Some 0x12FD" by code_simp
  have n3: "word_of_nat (length [0x12, 0x34, 0x56 :: BYTE]) = (3 :: BYTE)" by simp
  have n5: "word_of_nat (length [0x12, 0x34, 0x56 :: BYTE] + 2) = (5 :: BYTE)" by simp
  have hi: "ucast (drop_bit 8 (0x12FD :: WORD)) = (0x12 :: BYTE)" by simp
  have lo: "ucast (0x12FD :: WORD) = (0xFD :: BYTE)" by simp
  have l3: "length [0x12, 0x34, 0x56 :: BYTE] \<le> 255" by simp
  have l5: "length [0x12, 0x34, 0x56 :: BYTE] + 2 \<le> 255" by simp
  note inst = C4_crc16_ccitt_and_appended_crc
               [where buf = "[0x12, 0x34, 0x56]" and hdr = "[0x12, 0x34, 0x56]" and c = "0x12FD"]
  from inst l3 have "SyzygyComputeCRC [0x12, 0x34, 0x56] (word_of_nat (length [0x12, 0x34, 0x56 :: BYTE]))
      = Some (crc16_ccitt [0x12, 0x34, 0x56])"
    by blast
  with e have a: "crc16_ccitt [0x12, 0x34, 0x56] = 0x12FD" unfolding n3 by simp
  from e have e': "SyzygyComputeCRC [0x12, 0x34, 0x56] (word_of_nat (length [0x12, 0x34, 0x56 :: BYTE]))
      = Some 0x12FD"
    unfolding n3 .
  from inst l5 e' have "SyzygyComputeCRC ([0x12, 0x34, 0x56] @ [ucast (drop_bit 8 (0x12FD :: WORD)), ucast (0x12FD :: WORD)])
      (word_of_nat (length [0x12, 0x34, 0x56 :: BYTE] + 2)) = Some 0"
    by blast
  then have z: "SyzygyComputeCRC [0x12, 0x34, 0x56, 0x12, 0xFD] 5 = Some 0"
    unfolding n5 hi lo by simp
  from l5 e a z show ?thesis by blast
qed

section \<open>I2C hardware abstraction layer: theorems\<close>

text \<open>
  In the theorems below a transaction of a run is an entry of \<open>hr_txns\<close> or \<open>hw_txns\<close>;
  the number of transactions issued is the length of that list. The length asked for is
  \<open>uint cbRead\<close> or \<open>uint cbWrite\<close>, and the ceiling of \<open>L / C\<close> is written
  \<open>(L + (C - 1)) div C\<close>.
\<close>

text \<open>
  Claim C1, as it is stated, at the Platform MCU's cap. \<open>I2CHALWrite\<close> with
  \<open>cbDevRxMax = 6\<close> and 6 bytes to write, on a bus that accepts every transaction,
  returns true after two transactions, where the ceiling of 6 / 6 is one: the cap
  bounds the whole transaction, the two address bytes included, so one transaction
  carries 4 bytes of the buffer.
\<close>

theorem C1_write_cap_counts_address_bytes_counterexample:
  "hw_ret (I2CHALWrite PLATFORM_LINUX 0 [id, id] 0 of_nat 6 6 None) = Some True
   \<and> length (hw_txns (I2CHALWrite PLATFORM_LINUX 0 [id, id] 0 of_nat 6 6 None)) = 2
   \<and> length (hw_txns (I2CHALWrite PLATFORM_LINUX 0 [id, id] 0 of_nat 6 6 None))
        \<noteq> nat ((uint (6 :: BYTE) + (sint (6 :: INT32) - 1)) div sint (6 :: INT32))"
  by code_simp

text \<open>
  Claim C1, amended. Take a call in which, on Linux, the \<^verbatim>\<open>ioctl\<close> that sets the slave
  address does not fail, and a bus on which every transaction transfers the whole count
  it is asked for. Then \<open>I2CHALRead\<close> returns true after exactly the ceiling of
  \<open>L / 32\<close> transactions. And \<open>I2CHALWrite\<close> returns true after exactly the ceiling of
  \<open>L / (cbDevRxMax - 2)\<close> transactions, when the cap \<open>cbDevRxMax\<close> is at least 3, the
  length \<open>L\<close> is at most 253, and the transactions fit the staging buffer of 32 bytes,
  which they do when the cap is at most 32 or \<open>L\<close> is at most 30. In both the bytes moved
  by the transactions add up to \<open>L\<close>, and that count is stored through the output
  pointer when it is not \<open>NULL\<close>; a \<open>NULL\<close> pointer stays \<open>None\<close>. For \<open>L = 0\<close> the
  number of transactions is 0 and the function returns true with count 0.
\<close>

theorem C1_fragmentation_transaction_count:
  "(\<not> (pf = PLATFORM_LINUX \<and> io < 0)
      \<and> nat ((uint cbRead + 31) div 32) \<le> length rs
      \<and> (\<forall>r \<in> set (take (nat ((uint cbRead + 31) div 32)) rs). read_complete pf r)
    \<longrightarrow> hr_ret (I2CHALRead pf io rs addrRead pbRead cbRead pcbRead) = Some True
      \<and> length (hr_txns (I2CHALRead pf io rs addrRead pbRead cbRead pcbRead))
           = nat ((uint cbRead + 31) div 32)
      \<and> list_all rt_ok (hr_txns (I2CHALRead pf io rs addrRead pbRead cbRead pcbRead))
      \<and> cb_total (hr_txns (I2CHALRead pf io rs addrRead pbRead cbRead pcbRead)) = uint cbRead
      \<and> hr_pcbRead (I2CHALRead pf io rs addrRead pbRead cbRead pcbRead)
           = map_option (\<lambda>_. ucast cbRead) pcbRead)
   \<and> (\<not> (pf = PLATFORM_LINUX \<and> io < 0)
      \<and> 3 \<le> sint cbDevRxMax \<and> (sint cbDevRxMax \<le> 32 \<or> uint cbWrite \<le> 30)
      \<and> uint cbWrite \<le> 253
      \<and> nat ((uint cbWrite + (sint cbDevRxMax - 3)) div (sint cbDevRxMax - 2)) \<le> length ws
      \<and> (\<forall>w \<in> set (take (nat ((uint cbWrite + (sint cbDevRxMax - 3)) div (sint cbDevRxMax - 2))) ws).
            send_accepted pf w)
    \<longrightarrow> hw_ret (I2CHALWrite pf io ws addrWrite pbWrite cbWrite cbDevRxMax pcbWritten) = Some True
      \<and> length (hw_txns (I2CHALWrite pf io ws addrWrite pbWrite cbWrite cbDevRxMax pcbWritten))
           = nat ((uint cbWrite + (sint cbDevRxMax - 3)) div (sint cbDevRxMax - 2))
      \<and> list_all wt_ok (hw_txns (I2CHALWrite pf io ws addrWrite pbWrite cbWrite cbDevRxMax pcbWritten))
      \<and> payload_total (hw_txns (I2CHALWrite pf io ws addrWrite pbWrite cbWrite cbDevRxMax pcbWritten))
           = uint cbWrite
      \<and> hw_pcbWritten (I2CHALWrite pf io ws addrWrite pbWrite cbWrite cbDevRxMax pcbWritten)
           = map_option (\<lambda>_. ucast cbWrite) pcbWritten
      \<and> hw_fault (I2CHALWrite pf io ws addrWrite pbWrite cbWrite cbDevRxMax pcbWritten) = None)"
proof (rule conjI)
  show "\<not> (pf = PLATFORM_LINUX \<and> io < 0)
      \<and> nat ((uint cbRead + 31) div 32) \<le> length rs
      \<and> (\<forall>r \<in> set (take (nat ((uint cbRead + 31) div 32)) rs). read_complete pf r)
    \<longrightarrow> hr_ret (I2CHALRead pf io rs addrRead pbRead cbRead pcbRead) = Some True
      \<and> length (hr_txns (I2CHALRead pf io rs addrRead pbRead cbRead pcbRead))
           = nat ((uint cbRead + 31) div 32)
      \<and> list_all rt_ok (hr_txns (I2CHALRead pf io rs addrRead pbRead cbRead pcbRead))
      \<and> cb_total (hr_txns (I2CHALRead pf io rs addrRead pbRead cbRead pcbRead)) = uint cbRead
      \<and> hr_pcbRead (I2CHALRead pf io rs addrRead pbRead cbRead pcbRead)
           = map_option (\<lambda>_. ucast cbRead) pcbRead"
    using hal_read_complete[of pf io cbRead rs addrRead pbRead pcbRead] by blast
  show "\<not> (pf = PLATFORM_LINUX \<and> io < 0)
      \<and> 3 \<le> sint cbDevRxMax \<and> (sint cbDevRxMax \<le> 32 \<or> uint cbWrite \<le> 30)
      \<and> uint cbWrite \<le> 253
      \<and> nat ((uint cbWrite + (sint cbDevRxMax - 3)) div (sint cbDevRxMax - 2)) \<le> length ws
      \<and> (\<forall>w \<in> set (take (nat ((uint cbWrite + (sint cbDevRxMax - 3)) div (sint cbDevRxMax - 2))) ws).
            send_accepted pf w)
    \<longrightarrow> hw_ret (I2CHALWrite pf io ws addrWrite pbWrite cbWrite cbDevRxMax pcbWritten) = Some True
      \<and> length (hw_txns (I2CHALWrite pf io ws addrWrite pbWrite cbWrite cbDevRxMax pcbWritten))
           = nat ((uint cbWrite + (sint cbDevRxMax - 3)) div (sint cbDevRxMax - 2))
      \<and> list_all wt_ok (hw_txns (I2CHALWrite pf io ws addrWrite pbWrite cbWrite cbDevRxMax pcbWritten))
      \<and> payload_total (hw_txns (I2CHALWrite pf io ws addrWrite pbWrite cbWrite cbDevRxMax pcbWritten))
           = uint cbWrite
      \<and> hw_pcbWritten (I2CHALWrite pf io ws addrWrite pbWrite cbWrite cbDevRxMax pcbWritten)
           = map_option (\<lambda>_. ucast cbWrite) pcbWritten
      \<and> hw_fault (I2CHALWrite pf io ws addrWrite pbWrite cbWrite cbDevRxMax pcbWritten) = None"
    using hal_write_complete[of pf io cbDevRxMax cbWrite ws addrWrite pbWrite pcbWritten] by blast
qed

theorem C1_fragmentation_transaction_count_witness:
  "hr_ret (I2CHALRead PLATFORM_LINUX 0 [full_read_reply, full_read_reply, full_read_reply]
             0x8000 of_nat 70 (Some 0)) = Some True
   \<and> length (hr_txns (I2CHALRead PLATFORM_LINUX 0 [full_read_reply, full_read_reply, full_read_reply]
             0x8000 of_nat 70 (Some 0))) = 3
   \<and> cb_total (hr_txns (I2CHALRead PLATFORM_LINUX 0 [full_read_reply, full_read_reply, full_read_reply]
             0x8000 of_nat 70 (Some 0))) = 70
   \<and> hr_pcbRead (I2CHALRead PLATFORM_LINUX 0 [full_read_reply, full_read_reply, full_read_reply]
             0x8000 of_nat 70 (Some 0)) = Some 70
   \<and> hr_ret (I2CHALRead PLATFORM_LINUX 0 [] 0x8000 of_nat 0 None) = Some True
   \<and> length (hr_txns (I2CHALRead PLATFORM_LINUX 0 [] 0x8000 of_nat 0 None)) = 0
   \<and> hr_pcbRead (I2CHALRead PLATFORM_LINUX 0 [] 0x8000 of_nat 0 None) = None
   \<and> hw_ret (I2CHALWrite PLATFORM_LINUX 0 [id, id] 0 of_nat 6 6 (Some 0)) = Some True
   \<and> length (hw_txns (I2CHALWrite PLATFORM_LINUX 0 [id, id] 0 of_nat 6 6 (Some 0))) = 2
   \<and> payload_total (hw_txns (I2CHALWrite PLATFORM_LINUX 0 [id, id] 0 of_nat 6 6 (Some 0))) = 6
   \<and> hw_pcbWritten (I2CHALWrite PLATFORM_LINUX 0 [id, id] 0 of_nat 6 6 (Some 0)) = Some 6"
proof -
  have n70: "nat ((uint (70 :: BYTE) + 31) div 32) = 3" by simp
  have n0: "nat ((uint (0 :: BYTE) + 31) div 32) = 0" by simp
  have n6: "nat ((uint (6 :: BYTE) + (sint (6 :: INT32) - 3)) div (sint (6 :: INT32) - 2)) = 2" by simp
  have r70: "\<not> (PLATFORM_LINUX = PLATFORM_LINUX \<and> (0::int) < 0)
      \<and> nat ((uint (70 :: BYTE) + 31) div 32) \<le> length [full_read_reply, full_read_reply, full_read_reply]
      \<and> (\<forall>r \<in> set (take (nat ((uint (70 :: BYTE) + 31) div 32))
                [full_read_reply, full_read_reply, full_read_reply]). read_complete PLATFORM_LINUX r)"
    unfolding n70 by (simp add: full_read_reply_complete)
  have r0: "\<not> (PLATFORM_LINUX = PLATFORM_LINUX \<and> (0::int) < 0)
      \<and> nat ((uint (0 :: BYTE) + 31) div 32) \<le> length ([] :: read_reply list)
      \<and> (\<forall>r \<in> set (take (nat ((uint (0 :: BYTE) + 31) div 32)) []). read_complete PLATFORM_LINUX r)"
    unfolding n0 by simp
  have w6: "\<not> (PLATFORM_LINUX = PLATFORM_LINUX \<and> (0::int) < 0)
      \<and> 3 \<le> sint (6 :: INT32) \<and> (sint (6 :: INT32) \<le> 32 \<or> uint (6 :: BYTE) \<le> 30)
      \<and> uint (6 :: BYTE) \<le> 253
      \<and> nat ((uint (6 :: BYTE) + (sint (6 :: INT32) - 3)) div (sint (6 :: INT32) - 2)) \<le> length [id :: int \<Rightarrow> int, id]
      \<and> (\<forall>w \<in> set (take (nat ((uint (6 :: BYTE) + (sint (6 :: INT32) - 3)) div (sint (6 :: INT32) - 2))) [id, id]).
            send_accepted PLATFORM_LINUX w)"
    unfolding n6 by (simp add: id_accepted)
  from C1_fragmentation_transaction_count
         [of PLATFORM_LINUX 0 70 "[full_read_reply, full_read_reply, full_read_reply]" "0x8000" of_nat "Some 0"
             6 6 "[id, id]" 0 of_nat "Some 0"]
       C1_fragmentation_transaction_count
         [of PLATFORM_LINUX 0 0 "[]" "0x8000" of_nat None 6 6 "[id, id]" 0 of_nat "Some 0"]
       r70 r0 w6
  show ?thesis unfolding n70 n0 n6 by simp
qed

text \<open>
  Claim C2, at a failing input. \<open>PmcuI2cWrite\<close> calls \<open>I2CHALWrite\<close> with
  \<open>cbPmcuRxMax = 6\<close>. Asked to write 254 bytes, \<^verbatim>\<open>cbTrans = 2 + 254\<close> does not fit the
  \<^verbatim>\<open>BYTE\<close> and becomes 0; the cap of 6 is not below it, so the one transaction that is
  sent has no bytes at all: not the two address bytes that should begin it, and no
  payload. On a bus that accepts what it is handed the function returns true and reports
  254 bytes written. With 255 bytes \<^verbatim>\<open>cbTrans\<close> becomes 1 and the transaction is the
  high address byte alone. (For every other input the claim holds, and more: a
  transaction has at most 6 bytes in all, so at most 4 bytes of payload, and for a length
  of at most 253 it begins with the two address bytes: \<open>pmcu_write_transactions\<close>.)
\<close>

theorem C2_pmcu_write_254_sends_no_address:
  "PlatformMCU_cbPmcuRxMax = 6
   \<and> hw_ret (PmcuI2cWrite PLATFORM_LINUX 0 [id] 0x0010 of_nat 254 (Some 0)) = Some True
   \<and> hw_pcbWritten (PmcuI2cWrite PLATFORM_LINUX 0 [id] 0x0010 of_nat 254 (Some 0)) = Some 254
   \<and> map wt_cbTrans (hw_txns (PmcuI2cWrite PLATFORM_LINUX 0 [id] 0x0010 of_nat 254 (Some 0))) = [0]
   \<and> map wt_sent (hw_txns (PmcuI2cWrite PLATFORM_LINUX 0 [id] 0x0010 of_nat 254 (Some 0))) = [[]]
   \<and> hw_ret (PmcuI2cWrite PLATFORM_LINUX 0 [id] 0x0010 of_nat 255 (Some 0)) = Some True
   \<and> hw_pcbWritten (PmcuI2cWrite PLATFORM_LINUX 0 [id] 0x0010 of_nat 255 (Some 0)) = Some 255
   \<and> map wt_cbTrans (hw_txns (PmcuI2cWrite PLATFORM_LINUX 0 [id] 0x0010 of_nat 255 (Some 0))) = [1]
   \<and> map wt_sent (hw_txns (PmcuI2cWrite PLATFORM_LINUX 0 [id] 0x0010 of_nat 255 (Some 0))) = [[0x00]]"
  by code_simp




text \<open>
  Claim C8, at a failing input. \<open>SyzygyI2cWrite\<close> asked to write 510 bytes passes 254
  to \<open>I2CHALWrite\<close>. There \<open>cbTrans = 2 + 254\<close> does not fit the \<open>BYTE\<close> and becomes 0;
  the cap of 34 is not below it, so a transaction of no bytes is sent, \<open>cbSent\<close> becomes
  \<open>0 - 2 = 254\<close> modulo 256, and the loop ends. On a bus that accepts what it is handed
  the function returns true and reports 254 bytes written, while no byte of the buffer
  and not even the address was sent. (Reads always move the low byte of the length:
  \<open>syzygy_read_low_byte\<close>. A write moves it when it is at most 30:
  \<open>syzygy_write_low_byte\<close>; from 31 to 253 the staging loop leaves its buffer, see the
  theorem for claim C9.)
\<close>

theorem C8_syzygy_write_510_transfers_nothing:
  "ucast (510 :: WORD) = (254 :: BYTE)
   \<and> hw_ret (SyzygyI2cWrite PLATFORM_LINUX 0 [id] 0x8000 of_nat 510 (Some 0)) = Some True
   \<and> hw_pcbWritten (SyzygyI2cWrite PLATFORM_LINUX 0 [id] 0x8000 of_nat 510 (Some 0)) = Some 254
   \<and> map wt_cbTrans (hw_txns (SyzygyI2cWrite PLATFORM_LINUX 0 [id] 0x8000 of_nat 510 (Some 0))) = [0]
   \<and> map wt_sent (hw_txns (SyzygyI2cWrite PLATFORM_LINUX 0 [id] 0x8000 of_nat 510 (Some 0))) = [[]]
   \<and> payload_total (hw_txns (SyzygyI2cWrite PLATFORM_LINUX 0 [id] 0x8000 of_nat 510 (Some 0))) = 0"
  by code_simp




end
